theory Spec2Isabelle
  imports Complex_Main "HOL-Library.Log_Nat"
begin

section \<open>Shared values\<close>

text \<open>
  A JavaScript exception is an \<open>Error\<close> carrying its message. The error of a failed axios
  request carries, besides its message, what \<open>error.response?.data?.error\<close> reads: the
  \<open>error\<close> field of the body of the HTTP answer, when there was an answer with such a
  field. Every call that can throw returns \<open>js_error + 'a\<close>, with \<open>Inl\<close> for the thrown
  error.
\<close>

datatype js_error = Error (message: string) | AxiosError (message: string) "string option"

fun response_data_error :: "js_error \<Rightarrow> string option" where
  "response_data_error (Error m) = None"
| "response_data_error (AxiosError m r) = r"

text \<open>
  \<open>a || b\<close> where \<open>a\<close> is a bigint field that may be absent from the decoded struct:
  \<open>undefined\<close> and \<open>0n\<close> are falsy.
\<close>

fun or_bigint :: "nat option \<Rightarrow> nat \<Rightarrow> nat" where
  "or_bigint None b = b"
| "or_bigint (Some a) b = (if a = 0 then b else a)"

text \<open>\<open>s || d\<close> for strings: the empty string is falsy.\<close>

definition or_string :: "string \<Rightarrow> string \<Rightarrow> string" where
  "or_string s d = (if s = [] then d else s)"

datatype Status = ACTIVE | ENDED | SUCCESSFUL

section \<open>JavaScript numbers\<close>

text \<open>
  A Number is an IEEE 754 binary64 value: a finite double (kept as the rational it
  denotes), an infinity, or NaN. The two zeros are not told apart: \<open>-0\<close> comes only from
  negative operands, and the pages compute with amounts, counts and times, which are not
  negative.
\<close>

datatype js_number = Finite rat | PosInfinity | NegInfinity | NaN

text \<open>Rounding to the nearest integer, ties to the even one.\<close>

definition round_even :: "rat \<Rightarrow> int" where
  "round_even x =
     (let f = \<lfloor>x\<rfloor>; d = x - of_int f
      in if d < 1 / 2 then f else if 1 / 2 < d then f + 1 else if even f then f else f + 1)"

text \<open>
  The binary exponent of a non-zero rational: the \<open>e\<close> with \<open>2^e \<le> |x| < 2^(e+1)\<close>,
  found from the bit lengths of numerator and denominator.
\<close>

definition expo :: "rat \<Rightarrow> int" where
  "expo x =
     (case quotient_of \<bar>x\<bar> of (p, q) \<Rightarrow>
        let d = bitlen p - bitlen q in if 2 powi d \<le> \<bar>x\<bar> then d else d - 1)"

text \<open>
  Round to nearest, ties to even, with 53 significant bits and the least exponent of
  binary64 (below \<open>2^(-1022)\<close> the spacing stays \<open>2^(-1074)\<close>); the exponent is not yet
  bounded above.
\<close>

definition rnd :: "rat \<Rightarrow> rat" where
  "rnd x =
     (if x = 0 then 0
      else let u = 2 powi (max (expo x) (- 1022) - 52)
           in of_int (round_even (x / u)) * u)"

text \<open>The Number value of a real: a rounded result of magnitude \<open>2^1024\<close> overflows.\<close>

definition fl :: "rat \<Rightarrow> js_number" where
  "fl x =
     (let r = rnd x
      in if 2 powi 1024 \<le> r then PosInfinity
         else if r \<le> - (2 powi 1024) then NegInfinity
         else Finite r)"

text \<open>\<open>a < b\<close>, \<open>a >= b\<close> and \<open>a > b\<close>: every comparison with NaN is false.\<close>

fun js_lt :: "js_number \<Rightarrow> js_number \<Rightarrow> bool" where
  "js_lt NaN b = False"
| "js_lt a NaN = False"
| "js_lt (Finite x) (Finite y) = (x < y)"
| "js_lt a NegInfinity = False"
| "js_lt NegInfinity b = True"
| "js_lt PosInfinity b = False"
| "js_lt a PosInfinity = True"

definition js_ge :: "js_number \<Rightarrow> js_number \<Rightarrow> bool" where
  "js_ge a b = (a \<noteq> NaN \<and> b \<noteq> NaN \<and> \<not> js_lt a b)"

definition js_gt :: "js_number \<Rightarrow> js_number \<Rightarrow> bool" where
  "js_gt a b = js_lt b a"

text \<open>
  \<open>a / b\<close> and \<open>a * b\<close>: the exact result rounded; \<open>0 / 0\<close>, \<open>Infinity / Infinity\<close> and
  \<open>Infinity * 0\<close> are NaN, a non-zero number over zero is an infinity.
\<close>

fun js_div :: "js_number \<Rightarrow> js_number \<Rightarrow> js_number" where
  "js_div NaN b = NaN"
| "js_div a NaN = NaN"
| "js_div (Finite x) (Finite y) =
     (if y = 0 then (if x = 0 then NaN else if 0 < x then PosInfinity else NegInfinity)
      else fl (x / y))"
| "js_div (Finite x) b = Finite 0"
| "js_div PosInfinity (Finite y) = (if 0 \<le> y then PosInfinity else NegInfinity)"
| "js_div NegInfinity (Finite y) = (if 0 \<le> y then NegInfinity else PosInfinity)"
| "js_div a b = NaN"

fun js_mul :: "js_number \<Rightarrow> js_number \<Rightarrow> js_number" where
  "js_mul NaN b = NaN"
| "js_mul a NaN = NaN"
| "js_mul (Finite x) (Finite y) = fl (x * y)"
| "js_mul (Finite x) PosInfinity =
     (if x = 0 then NaN else if 0 < x then PosInfinity else NegInfinity)"
| "js_mul (Finite x) NegInfinity =
     (if x = 0 then NaN else if 0 < x then NegInfinity else PosInfinity)"
| "js_mul PosInfinity (Finite y) =
     (if y = 0 then NaN else if 0 < y then PosInfinity else NegInfinity)"
| "js_mul NegInfinity (Finite y) =
     (if y = 0 then NaN else if 0 < y then NegInfinity else PosInfinity)"
| "js_mul PosInfinity PosInfinity = PosInfinity"
| "js_mul NegInfinity NegInfinity = PosInfinity"
| "js_mul a b = NegInfinity"

text \<open>\<open>Math.min(a, b)\<close>: NaN when either argument is NaN.\<close>

fun Math_min :: "js_number \<Rightarrow> js_number \<Rightarrow> js_number" where
  "Math_min NaN b = NaN"
| "Math_min a NaN = NaN"
| "Math_min (Finite x) (Finite y) = Finite (min x y)"
| "Math_min NegInfinity b = NegInfinity"
| "Math_min a NegInfinity = NegInfinity"
| "Math_min PosInfinity b = b"
| "Math_min a PosInfinity = a"

text \<open>
  \<open>formatEther(w)\<close> of the ethers library renders the wei amount \<open>w\<close> as the exact decimal
  string of \<open>w / 10^18\<close>. The string is kept symbolically as \<open>FormatEther w\<close>.
  \<open>Number(s)\<close> reads such a string as the double nearest to the decimal it spells.
  \<open>Number(n)\<close> of a bigint is the double nearest to \<open>n\<close>.
\<close>

datatype ether_string = FormatEther nat

fun Number_ether :: "ether_string \<Rightarrow> js_number" where
  "Number_ether (FormatEther w) = fl (of_nat w / 10 ^ 18)"

definition Number_bigint :: "nat \<Rightarrow> js_number" where
  "Number_bigint n = fl (of_nat n)"

section \<open>The ledger, as the pages see it\<close>

text \<open>
  The struct decoded from \<open>contract.getCampaign(id)\<close>. The pages read the amount raised
  under two names, \<open>raised\<close> and \<open>raisedAmount\<close>; a name the struct does not have reads as
  \<open>undefined\<close> (\<open>None\<close>).
\<close>

record Campaign =
  creator :: string
  title :: string
  description :: string
  goal :: nat
  raised :: "nat option"
  raisedAmount :: "nat option"
  deadline :: nat

text \<open>The read-only contract: each call either throws or returns.\<close>

record Contract =
  getCampaign :: "nat \<Rightarrow> js_error + Campaign"
  getDonorCount :: "nat \<Rightarrow> js_error + nat"
  campaignCount :: "js_error + nat"

section \<open>Campaign details page\<close>

record CampaignData =
  id' :: nat
  creator :: string
  title :: string
  description :: string
  imageUrl :: string
  videoUrl :: string
  goal :: ether_string
  raised :: ether_string
  deadline :: js_number
  donorCount :: nat
  isActive :: bool
  status :: Status
  progress :: js_number

text \<open>
  What the details page holds: the three React state variables and the console output.
\<close>

record DetailsState =
  campaign :: "CampaignData option"
  loading :: bool
  error :: "string option"
  console :: "string list"

text \<open>
  The \<open>try\<close> block of \<open>fetchCampaign\<close>, up to the argument of \<open>setCampaign\<close>.
  \<open>getReadOnlyContract\<close> is the outcome of acquiring the contract, \<open>now\<close> is
  \<open>Math.floor(Date.now() / 1000)\<close>, a whole number of seconds and so its own double. The
  placeholder record \<open>metadata\<close> is built from the ledger record alone and is not assigned
  again.
\<close>

definition fetchCampaign_try ::
  "(js_error + Contract) \<Rightarrow> nat \<Rightarrow> nat \<Rightarrow> js_error + CampaignData" where
  "fetchCampaign_try getReadOnlyContract now campaignId =
    (case getReadOnlyContract of
       Inl err \<Rightarrow> Inl err
     | Inr contract \<Rightarrow>
    (case getCampaign contract campaignId of
       Inl err \<Rightarrow> Inl err
     | Inr onChainData \<Rightarrow>
       let metadata_title = or_string (Campaign.title onChainData) ''Untitled Campaign'';
           metadata_description =
             or_string (Campaign.description onChainData) ''No description available'';
           metadata_imageUrl = '''';
           metadata_videoUrl = '''';
           goal = FormatEther (Campaign.goal onChainData);
           raisedValue =
             or_bigint (Campaign.raised onChainData)
               (or_bigint (Campaign.raisedAmount onChainData) 0);
           raised = FormatEther raisedValue;
           deadline = Number_bigint (Campaign.deadline onChainData);
           isExpired = js_ge (Finite (of_nat now)) deadline;
           goalReached = js_ge (Number_ether raised) (Number_ether goal)
       in
    (case getDonorCount contract campaignId of
       Inl err \<Rightarrow> Inl err
     | Inr n \<Rightarrow>
       let donorCount = n;
           progress =
             (if js_gt (Number_ether goal) (Finite 0)
              then Math_min
                     (js_mul (js_div (Number_ether raised) (Number_ether goal)) (Finite 100))
                     (Finite 100)
              else Finite 0);
           status =
             (if goalReached then SUCCESSFUL else if isExpired then ENDED else ACTIVE)
       in Inr \<lparr> id' = campaignId,
                 creator = Campaign.creator onChainData,
                 title = metadata_title,
                 description = metadata_description,
                 imageUrl = metadata_imageUrl,
                 videoUrl = metadata_videoUrl,
                 goal = goal,
                 raised = raised,
                 deadline = deadline,
                 donorCount = donorCount,
                 isActive = (\<not> isExpired \<and> \<not> goalReached),
                 status = status,
                 progress = progress \<rparr>)))"

text \<open>
  The whole of \<open>fetchCampaign\<close>: \<open>setLoading(true)\<close>, \<open>setError(null)\<close>, the \<open>try\<close>
  block, the \<open>catch\<close> handler and \<open>finally\<close>.
\<close>

definition fetchCampaign ::
  "(js_error + Contract) \<Rightarrow> nat \<Rightarrow> nat \<Rightarrow> DetailsState \<Rightarrow> DetailsState" where
  "fetchCampaign getReadOnlyContract now campaignId st =
    (let st1 = st\<lparr> loading := True, error := None \<rparr> in
     case fetchCampaign_try getReadOnlyContract now campaignId of
       Inr view \<Rightarrow> st1\<lparr> campaign := Some view, loading := False \<rparr>
     | Inl err \<Rightarrow>
         st1\<lparr> console := console st1 @ [''Error fetching campaign: '' @ message err],
               error := Some (or_string (message err) ''Failed to load campaign details''),
               loading := False \<rparr>)"

text \<open>
  The progress as the specification words it, \<open>min(raised / goal * 100, 100)\<close> for a
  positive goal and \<open>0\<close> for a goal of zero, on the amounts in wei and in exact
  arithmetic. It is what the progress the page computes is compared with.
\<close>

definition spec_progress :: "nat \<Rightarrow> nat \<Rightarrow> rat" where
  "spec_progress raised_wei goal_wei =
     (if goal_wei = 0 then 0 else min (of_nat raised_wei / of_nat goal_wei * 100) 100)"

section \<open>Campaign list page\<close>

record CampaignView =
  id' :: nat
  title :: string
  description :: string
  goal :: ether_string
  raised :: ether_string
  deadline :: js_number
  isActive :: bool
  status :: Status

record ListState =
  campaigns :: "CampaignView list"
  loading :: bool
  error :: "string option"
  console :: "string list"

text \<open>
  The \<open>try\<close> block of \<open>fetchSingleCampaign\<close>; \<open>c\<close> is the source's \<open>campaign\<close>.
  \<open>formatEther\<close> throws on \<open>undefined\<close>, which is what \<open>campaign.raisedAmount\<close> is when the
  struct has no field of that name.
\<close>

definition fetchSingleCampaign_try ::
  "Contract \<Rightarrow> nat \<Rightarrow> nat \<Rightarrow> js_error + CampaignView" where
  "fetchSingleCampaign_try contract now campaignId =
    (case getCampaign contract campaignId of
       Inl err \<Rightarrow> Inl err
     | Inr c \<Rightarrow>
    (case Campaign.raisedAmount c of
       None \<Rightarrow> Inl (Error ''invalid BigNumberish value'')
     | Some amount \<Rightarrow>
       let goal = FormatEther (Campaign.goal c);
           raised = FormatEther amount;
           deadline = Number_bigint (Campaign.deadline c);
           isExpired = js_ge (Finite (of_nat now)) deadline
       in Inr \<lparr> id' = campaignId,
                 title = Campaign.title c,
                 description = Campaign.description c,
                 goal = goal,
                 raised = raised,
                 deadline = deadline,
                 isActive = (\<not> isExpired),
                 status = (if isExpired then ENDED else ACTIVE) \<rparr>))"

text \<open>
  \<open>fetchSingleCampaign\<close> with its \<open>catch\<close>: the error is written to the console and the
  result is \<open>null\<close>. The console is threaded through.
\<close>

definition fetchSingleCampaign ::
  "Contract \<Rightarrow> nat \<Rightarrow> nat \<Rightarrow> string list \<Rightarrow> CampaignView option \<times> string list" where
  "fetchSingleCampaign contract now campaignId cons =
    (case fetchSingleCampaign_try contract now campaignId of
       Inr view \<Rightarrow> (Some view, cons)
     | Inl err \<Rightarrow> (None, cons @ [''Error fetching campaign: '' @ message err]))"

text \<open>
  \<open>Promise.all\<close> over tasks that never reject: every task runs, the results are collected in
  the order of the tasks. The tasks are run here in that order too.
\<close>

fun Promise_all :: "('s \<Rightarrow> 'a \<times> 's) list \<Rightarrow> 's \<Rightarrow> 'a list \<times> 's" where
  "Promise_all [] s = ([], s)"
| "Promise_all (t # ts) s =
    (case t s of (x, s1) \<Rightarrow> (case Promise_all ts s1 of (xs, s2) \<Rightarrow> (x # xs, s2)))"

text \<open>\<open>results.filter(Boolean)\<close> on a list of objects and \<open>null\<close>s.\<close>

definition filter_Boolean :: "'a option list \<Rightarrow> 'a list" where
  "filter_Boolean results = List.map_filter (\<lambda>r. r) results"

text \<open>
  \<open>fetchAllCampaigns\<close>. \<open>clock i\<close> is the time read by the fetch of campaign \<open>i\<close>.
  The \<open>for\<close> loop pushes one request for each \<open>i\<close> from \<open>0\<close> below \<open>total\<close>.
\<close>

definition fetchAllCampaigns_catch :: "js_error \<Rightarrow> ListState \<Rightarrow> ListState" where
  "fetchAllCampaigns_catch err st =
     st\<lparr> console := console st @ [''Error fetching campaigns: '' @ message err],
          error := Some (or_string (message err)
                     ''Failed to load campaigns. Please try again later.''),
          loading := False \<rparr>"

definition fetchAllCampaigns ::
  "(js_error + Contract) \<Rightarrow> (nat \<Rightarrow> nat) \<Rightarrow> ListState \<Rightarrow> ListState" where
  "fetchAllCampaigns getReadOnlyContract clock st =
    (let st1 = st\<lparr> loading := True, error := None \<rparr> in
     case getReadOnlyContract of
       Inl err \<Rightarrow> fetchAllCampaigns_catch err st1
     | Inr contract \<Rightarrow>
    (case campaignCount contract of
       Inl err \<Rightarrow> fetchAllCampaigns_catch err st1
     | Inr n \<Rightarrow>
       let total = n in
       if total = 0 then st1\<lparr> campaigns := [], loading := False \<rparr>
       else
         let requests = map (\<lambda>i. fetchSingleCampaign contract (clock i) i) [0..<total] in
         case Promise_all requests (console st1) of
           (results, cons) \<Rightarrow>
             st1\<lparr> console := cons,
                   campaigns := rev (filter_Boolean results),
                   loading := False \<rparr>))"

section \<open>Metadata service (client side)\<close>

record CampaignMetadata =
  campaignId :: string
  title :: string
  description :: string
  imageUrl :: string
  videoUrl :: string
  goal :: string
  deadline :: nat
  createdAt :: nat

text \<open>The JSON bodies the two API routes answer with.\<close>

datatype response_body =
    ErrorBody string "string option"
  | UploadBody string string
  | FetchBody string string CampaignMetadata

record Response =
  status :: nat
  body :: response_body

definition ok :: "Response \<Rightarrow> bool" where
  "ok response = (200 \<le> Response.status response \<and> Response.status response \<le> 299)"

text \<open>\<open>error.details || error.error || fallback\<close> on the parsed body of a failed response.\<close>

fun error_text :: "response_body \<Rightarrow> string \<Rightarrow> string" where
  "error_text (ErrorBody e (Some d)) fallback = or_string d (or_string e fallback)"
| "error_text (ErrorBody e None) fallback = or_string e fallback"
| "error_text _ fallback = fallback"

text \<open>\<open>data.metadata\<close> of a parsed body; \<open>undefined\<close> when the body has no such field.\<close>

fun metadata_of :: "response_body \<Rightarrow> CampaignMetadata option" where
  "metadata_of (FetchBody h u m) = Some m"
| "metadata_of _ = None"

text \<open>
  \<open>fetchMetadataByCampaignId\<close>. The parameter \<open>fetch\<close> is the outcome of
  \<open>fetch("/api/fetch-metadata?campaignId=" + campaignId)\<close> as a function of the campaign id
  (\<open>cid\<close> below): either the call throws (no network) or a response arrives. The console is
  threaded through; \<open>null\<close> and \<open>undefined\<close> are \<open>None\<close>.
\<close>

definition fetchMetadataByCampaignId ::
  "(string \<Rightarrow> js_error + Response) \<Rightarrow> string \<Rightarrow> string list
     \<Rightarrow> CampaignMetadata option \<times> string list" where
  "fetchMetadataByCampaignId fetch cid cons =
    (let catch = (\<lambda>err.
           (None, cons @ [''Fetch metadata error for campaign '' @ cid @ '': ''
                           @ message err]))
     in case fetch cid of
       Inl err \<Rightarrow> catch err
     | Inr response \<Rightarrow>
         if Response.status response = 404 then (None, cons)
         else if \<not> ok response
         then catch (Error (error_text (Response.body response) ''Fetch failed''))
         else (metadata_of (Response.body response), cons))"

text \<open>
  \<open>s.replace(pat, rep)\<close> with a string pattern: the first occurrence only.
\<close>

fun replace_first :: "string \<Rightarrow> string \<Rightarrow> string \<Rightarrow> string" where
  "replace_first pat rep [] = (if pat = [] then rep else [])"
| "replace_first pat rep (c # cs) =
    (if take (length pat) (c # cs) = pat then rep @ drop (length pat) (c # cs)
     else c # replace_first pat rep cs)"

text \<open>
  \<open>fetchMetadataFromIPFS\<close>. The parameter \<open>gateway\<close> is the outcome of the GET on the
  public gateway as a function of the hash.
\<close>

definition fetchMetadataFromIPFS ::
  "(string \<Rightarrow> js_error + CampaignMetadata) \<Rightarrow> string \<Rightarrow> string list
     \<Rightarrow> (js_error + CampaignMetadata) \<times> string list" where
  "fetchMetadataFromIPFS gateway ipfsUri cons =
    (let hash = replace_first ''ipfs://'' [] ipfsUri in
     case gateway hash of
       Inr data \<Rightarrow> (Inr data, cons)
     | Inl err \<Rightarrow>
         (Inl (Error ''Failed to fetch metadata from IPFS''),
          cons @ [''Fetch metadata error: '' @ message err]))"

text \<open>
  The batch fetch by campaign id. Each callback of \<open>campaignIds.map\<close> works on the shared
  \<open>results\<close> map and the console; \<open>Promise.allSettled\<close> waits for all of them. The callbacks
  are run here in the order of the list. \<open>fetchMetadataByCampaignId\<close> never throws, so the
  \<open>catch\<close> of the callback has no branch.
\<close>

definition fetchMetadataBatch_callback ::
  "(string \<Rightarrow> js_error + Response) \<Rightarrow> string
     \<Rightarrow> (string \<rightharpoonup> CampaignMetadata) \<times> string list
     \<Rightarrow> (string \<rightharpoonup> CampaignMetadata) \<times> string list" where
  "fetchMetadataBatch_callback fetch cid acc =
    (case acc of (results, cons) \<Rightarrow>
       (case fetchMetadataByCampaignId fetch cid cons of
          (Some metadata, cons1) \<Rightarrow> (results(cid \<mapsto> metadata), cons1)
        | (None, cons1) \<Rightarrow> (results, cons1)))"

definition fetchMetadataBatch ::
  "(string \<Rightarrow> js_error + Response) \<Rightarrow> string list \<Rightarrow> string list
     \<Rightarrow> (string \<rightharpoonup> CampaignMetadata) \<times> string list" where
  "fetchMetadataBatch fetch campaignIds cons =
     fold (fetchMetadataBatch_callback fetch) campaignIds (Map.empty, cons)"

text \<open>
  The batch fetch by content address, over the entries of the map from campaign id to URI.
\<close>

definition fetchMetadataBatch_uris_callback ::
  "(string \<Rightarrow> js_error + CampaignMetadata) \<Rightarrow> string \<times> string
     \<Rightarrow> (string \<rightharpoonup> CampaignMetadata) \<times> string list
     \<Rightarrow> (string \<rightharpoonup> CampaignMetadata) \<times> string list" where
  "fetchMetadataBatch_uris_callback gateway entry acc =
    (case entry of (cid, uri) \<Rightarrow>
     case acc of (results, cons) \<Rightarrow>
       (case fetchMetadataFromIPFS gateway uri cons of
          (Inr metadata, cons1) \<Rightarrow> (results(cid \<mapsto> metadata), cons1)
        | (Inl err, cons1) \<Rightarrow>
            (results, cons1 @ [''Failed to fetch metadata for campaign '' @ cid
                                @ '': '' @ message err])))"

definition fetchMetadataBatch_uris ::
  "(string \<Rightarrow> js_error + CampaignMetadata) \<Rightarrow> (string \<times> string) list \<Rightarrow> string list
     \<Rightarrow> (string \<rightharpoonup> CampaignMetadata) \<times> string list" where
  "fetchMetadataBatch_uris gateway ipfsUris cons =
     fold (fetchMetadataBatch_uris_callback gateway) ipfsUris (Map.empty, cons)"

section \<open>API routes (server side)\<close>

text \<open>
  What the properties of the parsed body of an upload request read as. \<open>campaignId\<close> and
  \<open>title\<close> may be missing (\<open>None\<close>); a missing or empty string is falsy.
\<close>

record UploadRequest =
  campaignId :: "string option"
  title :: "string option"
  description :: string
  imageUrl :: string
  videoUrl :: string
  goal :: string
  deadline :: nat

text \<open>
  The value \<open>await req.json()\<close> gives. Reading a property of \<open>null\<close> throws. Every other
  JSON value (an object, but also a number, a string, a boolean or an array) reads a
  property it does not have as \<open>undefined\<close>, and is given by what its properties read as.
\<close>

datatype json_body = JsonNull | JsonValue UploadRequest

record PinataResponse =
  IpfsHash :: string
  PinSize :: nat
  Timestamp :: string

text \<open>
  The answer of the store's pin list query: its \<open>count\<close> and the \<open>ipfs_pin_hash\<close> of
  each of its \<open>rows\<close>.
\<close>

record PinList =
  count :: nat
  rows :: "string list"

text \<open>
  The store as the server reaches it: the write (\<open>pinJSONToIPFS\<close>, given the body and the
  \<open>createdAt\<close> stamp), the query by campaign id, and the read of a content address. Each
  either throws (network, timeout, non-2xx answer) or returns.
\<close>

record Pinata =
  pinJSONToIPFS :: "UploadRequest \<Rightarrow> nat \<Rightarrow> js_error + PinataResponse"
  pinList :: "string \<Rightarrow> js_error + PinList"
  gatewayGet :: "string \<Rightarrow> js_error + CampaignMetadata"

text \<open>What a route does besides answering, in order.\<close>

datatype event =
    Console_error string
  | Req_json
  | Post_pinJSONToIPFS UploadRequest nat
  | Get_pinList string
  | Get_gateway string

definition falsy_string :: "string option \<Rightarrow> bool" where
  "falsy_string s = (case s of None \<Rightarrow> True | Some v \<Rightarrow> v = [])"

definition NextResponse_json :: "response_body \<Rightarrow> nat \<Rightarrow> Response" where
  "NextResponse_json b st = \<lparr> status = st, body = b \<rparr>"

text \<open>\<open>error.response?.data?.error || error.message\<close>, the \<open>details\<close> of a \<open>catch\<close> answer.\<close>

definition error_details :: "js_error \<Rightarrow> string" where
  "error_details err =
     (case response_data_error err of
        None \<Rightarrow> message err
      | Some d \<Rightarrow> or_string d (message err))"

text \<open>
  The upload route. \<open>PINATA_JWT\<close> is the environment variable, \<open>req_json\<close> the outcome of
  \<open>await req.json()\<close> (the body does not parse, or parses to a JSON value), \<open>now\<close> is
  \<open>Date.now()\<close>.
\<close>

definition POST_catch :: "js_error \<Rightarrow> event list \<Rightarrow> Response \<times> event list" where
  "POST_catch err tr =
     (NextResponse_json (ErrorBody ''Failed to upload to IPFS'' (Some (error_details err))) 500,
      tr @ [Console_error (''Pinata upload error: '' @ message err)])"

definition POST ::
  "string option \<Rightarrow> Pinata \<Rightarrow> (js_error + json_body) \<Rightarrow> nat \<Rightarrow> event list
     \<Rightarrow> Response \<times> event list" where
  "POST PINATA_JWT pinata req_json now tr =
    (if falsy_string PINATA_JWT
     then (NextResponse_json (ErrorBody ''Server configuration error'' None) 500,
           tr @ [Console_error ''PINATA_JWT not configured in environment variables''])
     else
       let tr1 = tr @ [Req_json] in
       case req_json of
         Inl err \<Rightarrow> POST_catch err tr1
       | Inr JsonNull \<Rightarrow> POST_catch (Error ''Cannot read properties of null'') tr1
       | Inr (JsonValue b) \<Rightarrow>
           if falsy_string (UploadRequest.campaignId b) \<or> falsy_string (UploadRequest.title b)
           then (NextResponse_json
                   (ErrorBody ''Missing required fields: campaignId, title'' None) 400,
                 tr1)
           else
             let tr2 = tr1 @ [Post_pinJSONToIPFS b now] in
             (case pinJSONToIPFS pinata b now of
                Inl err \<Rightarrow> POST_catch err tr2
              | Inr response \<Rightarrow>
                  (NextResponse_json
                     (UploadBody (IpfsHash response) (''ipfs://'' @ IpfsHash response)) 200,
                   tr2)))"




section \<open>Example inputs\<close>

text \<open>
  A ledger record with the given goal, amounts and deadline, and a contract that holds it
  as campaign \<open>0\<close> and answers the donor count as given.
\<close>

definition sample_campaign :: "nat \<Rightarrow> nat option \<Rightarrow> nat option \<Rightarrow> nat \<Rightarrow> Campaign" where
  "sample_campaign g r ra d =
     \<lparr> Campaign.creator = ''0xA'', Campaign.title = ''Well'',
       Campaign.description = ''Dig a well'', Campaign.goal = g,
       Campaign.raised = r, Campaign.raisedAmount = ra, Campaign.deadline = d \<rparr>"

definition contract_of :: "Campaign \<Rightarrow> (js_error + nat) \<Rightarrow> Contract" where
  "contract_of c donors =
     \<lparr> getCampaign = (\<lambda>i. if i = 0 then Inr c else Inl (Error ''campaign does not exist'')),
       getDonorCount = (\<lambda>i. donors),
       campaignCount = Inr 1 \<rparr>"

definition initial_details :: DetailsState where
  "initial_details =
     \<lparr> DetailsState.campaign = None, DetailsState.loading = True,
       DetailsState.error = None, DetailsState.console = [] \<rparr>"

definition initial_list :: ListState where
  "initial_list =
     \<lparr> ListState.campaigns = [], ListState.loading = True,
       ListState.error = None, ListState.console = [] \<rparr>"

text \<open>
  A contract with three campaigns, all with goal 10 and deadline 2000, campaign \<open>i\<close>
  having raised \<open>i\<close>; the read of campaign \<open>1\<close> fails.
\<close>

definition three_campaigns :: Contract where
  "three_campaigns =
     \<lparr> getCampaign = (\<lambda>i. if i = 1 then Inl (Error ''rpc error'')
                           else if i < 3 then Inr (sample_campaign 10 None (Some i) 2000)
                           else Inl (Error ''campaign does not exist'')),
       getDonorCount = (\<lambda>i. Inr 0),
       campaignCount = Inr 3 \<rparr>"

text \<open>
  A metadata record, a lookup API that answers 404 for campaign \<open>B\<close> and a record for
  every other id, and a gateway that fails for the hash \<open>QmB\<close>.
\<close>

definition sample_metadata :: "string \<Rightarrow> CampaignMetadata" where
  "sample_metadata cid =
     \<lparr> CampaignMetadata.campaignId = cid, CampaignMetadata.title = ''Well'',
       CampaignMetadata.description = ''Dig a well'', CampaignMetadata.imageUrl = ''img'',
       CampaignMetadata.videoUrl = [], CampaignMetadata.goal = ''10'',
       CampaignMetadata.deadline = 2000, CampaignMetadata.createdAt = 500 \<rparr>"

definition api_ABC :: "string \<Rightarrow> js_error + Response" where
  "api_ABC cid =
     (if cid = ''B'' then Inr (NextResponse_json (ErrorBody ''Metadata not found'' None) 404)
      else Inr (NextResponse_json
                  (FetchBody (''Qm'' @ cid) (''ipfs://Qm'' @ cid) (sample_metadata cid)) 200))"

definition gateway_AC :: "string \<Rightarrow> js_error + CampaignMetadata" where
  "gateway_AC hash =
     (if hash = ''QmB'' then Inl (Error ''Request failed with status code 404'')
      else Inr (sample_metadata hash))"

text \<open>
  A store whose query by campaign id answers as given, whose write succeeds and whose
  gateway serves a record for every hash; and a parsed upload body with the given
  \<open>campaignId\<close> and \<open>title\<close>.
\<close>

definition pinata_of :: "(js_error + PinList) \<Rightarrow> Pinata" where
  "pinata_of answer =
     \<lparr> pinJSONToIPFS =
         (\<lambda>b t. Inr \<lparr> IpfsHash = ''QmNew'', PinSize = 120, Timestamp = ''2026'' \<rparr>),
       pinList = (\<lambda>cid. answer),
       gatewayGet = (\<lambda>h. Inr (sample_metadata h)) \<rparr>"

definition sample_upload :: "string option \<Rightarrow> string option \<Rightarrow> UploadRequest" where
  "sample_upload cid t =
     \<lparr> UploadRequest.campaignId = cid, UploadRequest.title = t,
       UploadRequest.description = ''Dig a well'', UploadRequest.imageUrl = ''img'',
       UploadRequest.videoUrl = [], UploadRequest.goal = ''10'',
       UploadRequest.deadline = 2000 \<rparr>"

text \<open>A contract with no campaign at all.\<close>

definition no_campaigns :: Contract where
  "no_campaigns =
     \<lparr> getCampaign = (\<lambda>i. Inl (Error ''campaign does not exist'')),
       getDonorCount = (\<lambda>i. Inr 0),
       campaignCount = Inr 0 \<rparr>"

section \<open>Properties of JavaScript numbers\<close>

lemma round_even_near: "\<bar>of_int (round_even x) - x\<bar> \<le> 1 / 2"
proof -
  have "of_int \<lfloor>x\<rfloor> \<le> x" "x < of_int \<lfloor>x\<rfloor> + 1" by linarith+
  then show ?thesis by (auto simp add: round_even_def Let_def)
qed

lemma round_even_of_int [simp]: "round_even (of_int n) = n"
  by (simp add: round_even_def)

lemma round_even_mono:
  assumes "x \<le> y"
  shows "round_even x \<le> round_even y"
proof (rule ccontr)
  assume "\<not> round_even x \<le> round_even y"
  then have gt: "round_even y + 1 \<le> round_even x" by simp
  then have "(of_int (round_even y) :: rat) + 1 \<le> of_int (round_even x)"
    by (metis of_int_1 of_int_add of_int_le_iff)
  moreover have "of_int (round_even x) \<le> x + 1 / 2" "y - 1 / 2 \<le> of_int (round_even y)"
    using round_even_near [of x] round_even_near [of y] by linarith+
  ultimately have "y \<le> x" by linarith
  with assms have "x = y" by simp
  with gt show False by simp
qed

lemma expo_bounds:
  assumes "0 < x"
  shows "2 powi expo x \<le> x" and "x < 2 powi (expo x + 1)"
proof -
  obtain p q where pq: "quotient_of \<bar>x\<bar> = (p, q)" by (cases "quotient_of \<bar>x\<bar>")
  have q: "0 < q" using quotient_of_denom_pos [OF pq] .
  have x: "x = of_int p / of_int q" using quotient_of_div [OF pq] assms by simp
  have p: "0 < p" using assms q x by (simp add: zero_less_divide_iff)
  let ?d = "bitlen p - bitlen q"
  have bp: "2 ^ nat (bitlen p - 1) \<le> p" "p < 2 ^ nat (bitlen p)"
    using bitlen_bounds [OF p] by auto
  have bq: "2 ^ nat (bitlen q - 1) \<le> q" "q < 2 ^ nat (bitlen q)"
    using bitlen_bounds [OF q] by auto
  have lp: "1 \<le> bitlen p" and lq: "1 \<le> bitlen q"
    using p q bitlen_eq_zero_iff [of p] bitlen_eq_zero_iff [of q] bitlen_nonneg [of p]
      bitlen_nonneg [of q] by linarith+
  have P1: "(2::rat) powi (bitlen p - 1) \<le> of_int p"
    using bp(1) lp by (simp add: power_int_nonneg_exp)
  have P2: "of_int p < (2::rat) powi (bitlen p)"
    using bp(2) lp by (simp add: power_int_nonneg_exp)
  have Q1: "(2::rat) powi (bitlen q - 1) \<le> of_int q"
    using bq(1) lq by (simp add: power_int_nonneg_exp)
  have Q2: "of_int q < (2::rat) powi (bitlen q)"
    using bq(2) lq by (simp add: power_int_nonneg_exp)
  have qpos: "(0::rat) < of_int q" using q by simp
  have up: "x < 2 powi (?d + 1)"
  proof -
    have "x * of_int q = of_int p" using x qpos by simp
    also have "\<dots> < 2 powi (bitlen p)" by (rule P2)
    also have "\<dots> = 2 powi (?d + 1) * 2 powi (bitlen q - 1)"
      by (simp flip: power_int_add)
    also have "\<dots> \<le> 2 powi (?d + 1) * of_int q"
      using Q1 by (intro mult_left_mono) simp_all
    finally show ?thesis using qpos by simp
  qed
  have lo: "2 powi (?d - 1) < x"
  proof -
    have "(2::rat) powi (?d - 1) * of_int q < 2 powi (?d - 1) * 2 powi (bitlen q)"
      using Q2 by (intro mult_strict_left_mono) simp_all
    also have "\<dots> = 2 powi (bitlen p - 1)" by (simp flip: power_int_add)
    also have "\<dots> \<le> of_int p" by (rule P1)
    also have "\<dots> = x * of_int q" using x qpos by simp
    finally show ?thesis using qpos by simp
  qed
  have e: "expo x = (if 2 powi ?d \<le> x then ?d else ?d - 1)"
    using pq assms by (simp add: expo_def Let_def)
  show "2 powi expo x \<le> x" using e lo by (auto simp add: less_imp_le)
  show "x < 2 powi (expo x + 1)" using e up by (auto simp add: not_le)
qed

lemma expo_unique:
  assumes "2 powi e \<le> x" and "x < 2 powi (e + 1)"
  shows "expo x = e"
proof -
  have pos: "0 < x" using assms(1) by (meson less_le_trans zero_less_numeral zero_less_power_int)
  have "(2::rat) powi e < 2 powi (expo x + 1)"
    using assms(1) expo_bounds(2) [OF pos] by simp
  then have "e < expo x + 1"
    by (metis not_le one_less_numeral_iff power_int_increasing semiring_norm(76) less_imp_le not_less)
  moreover have "(2::rat) powi expo x < 2 powi (e + 1)"
    using assms(2) expo_bounds(1) [OF pos] by simp
  then have "expo x < e + 1"
    by (metis not_le one_less_numeral_iff power_int_increasing semiring_norm(76) less_imp_le not_less)
  ultimately show ?thesis by simp
qed

lemma expo_mono:
  assumes "0 < x" and "x \<le> y"
  shows "expo x \<le> expo y"
proof -
  have y: "0 < y" using assms by simp
  have "(2::rat) powi expo x < 2 powi (expo y + 1)"
    using expo_bounds(1) [OF assms(1)] expo_bounds(2) [OF y] assms(2) by simp
  then have "expo x < expo y + 1"
    by (metis not_le one_less_numeral_iff power_int_increasing semiring_norm(76) less_imp_le not_less)
  then show ?thesis by simp
qed


lemma of_int_less_pow2: "m < 2 ^ n \<Longrightarrow> (of_int m :: rat) < 2 ^ n"
  by (metis of_int_less_iff of_int_numeral of_int_power)

lemma of_int_le_pow2: "m \<le> 2 ^ n \<Longrightarrow> (of_int m :: rat) \<le> 2 ^ n"
  by (metis of_int_le_iff of_int_numeral of_int_power)

lemma pow2_le_of_int: "2 ^ n \<le> m \<Longrightarrow> (2 :: rat) ^ n \<le> of_int m"
  by (metis of_int_le_iff of_int_numeral of_int_power)

lemma powi_less_exp: "(2::rat) powi a < 2 powi b \<Longrightarrow> a < b"
  by (metis one_less_numeral_iff power_int_increasing semiring_norm(76) less_imp_le not_less)

lemma rnd_zero [simp]: "rnd 0 = 0"
  by (simp add: rnd_def)

lemma rnd_nonneg:
  assumes "0 \<le> x"
  shows "0 \<le> rnd x"
proof (cases "x = 0")
  case True
  then show ?thesis by simp
next
  case False
  let ?u = "(2::rat) powi (max (expo x) (- 1022) - 52)"
  have u: "0 < ?u" by simp
  have "0 \<le> x / ?u" using assms u by simp
  then have "round_even 0 \<le> round_even (x / ?u)" by (rule round_even_mono)
  then have "0 \<le> round_even (x / ?u)" using round_even_of_int [of 0] by simp
  then show ?thesis using False u by (simp add: rnd_def Let_def)
qed

lemma rnd_exact:
  assumes m: "0 \<le> m" "m < 2 ^ 53" and k: "- 1074 \<le> k"
  shows "rnd (of_int m * 2 powi k) = of_int m * 2 powi k"
proof (cases "m = 0")
  case True
  then show ?thesis by simp
next
  case False
  let ?x = "of_int m * (2::rat) powi k"
  have mpos: "0 < m" using m False by simp
  have xpos: "0 < ?x" using mpos by simp
  have "?x < 2 ^ 53 * 2 powi k"
    using of_int_less_pow2 [OF m(2)] by (intro mult_strict_right_mono) simp_all
  also have "\<dots> = 2 powi (k + 53)" by (simp add: power_int_add)
  finally have "(2::rat) powi expo ?x < 2 powi (k + 53)"
    using expo_bounds(1) [OF xpos] by simp
  then have "expo ?x < k + 53" by (rule powi_less_exp)
  then have le: "max (expo ?x) (- 1022) - 52 \<le> k" using k by simp
  define e where "e = max (expo ?x) (- 1022) - 52"
  define j where "j = nat (k - e)"
  have kj: "k = e + int j" using le by (simp add: e_def j_def)
  have "?x / 2 powi e = of_int (m * 2 ^ j)"
    by (simp add: kj power_int_add)
  then have "round_even (?x / 2 powi e) = m * 2 ^ j"
    by (simp only: round_even_of_int)
  then have "of_int (round_even (?x / 2 powi e)) * 2 powi e = of_int m * 2 powi (int j) * 2 powi e"
    by simp
  also have "\<dots> = ?x" by (simp add: kj power_int_add)
  finally show ?thesis using xpos by (simp add: rnd_def Let_def e_def)
qed

lemma rnd_of_nat:
  assumes "n < 2 ^ 53"
  shows "rnd (of_nat n) = of_nat n"
proof -
  have "int n < 2 ^ 53" using assms by (metis of_nat_less_iff of_nat_numeral of_nat_power)
  then show ?thesis using rnd_exact [of "int n" 0] by simp
qed

lemma rnd_mono:
  assumes "0 \<le> x" and "x \<le> y"
  shows "rnd x \<le> rnd y"
proof (cases "x = 0")
  case True
  then show ?thesis using rnd_nonneg [of y] assms by simp
next
  case False
  then have x: "0 < x" and y: "0 < y" using assms by simp_all
  define ex where "ex = max (expo x) (- 1022)"
  define ey where "ey = max (expo y) (- 1022)"
  have exy: "ex \<le> ey" using expo_mono [OF x assms(2)] by (simp add: ex_def ey_def)
  have rx: "rnd x = of_int (round_even (x / 2 powi (ex - 52))) * 2 powi (ex - 52)"
    using x by (simp add: rnd_def Let_def ex_def)
  have ry: "rnd y = of_int (round_even (y / 2 powi (ey - 52))) * 2 powi (ey - 52)"
    using y by (simp add: rnd_def Let_def ey_def)
  show ?thesis
  proof (cases "ex = ey")
    case True
    have "x / 2 powi (ex - 52) \<le> y / 2 powi (ex - 52)"
      using assms(2) by (simp add: divide_right_mono)
    then have "round_even (x / 2 powi (ex - 52)) \<le> round_even (y / 2 powi (ex - 52))"
      by (rule round_even_mono)
    then show ?thesis using rx ry True by (simp add: mult_right_mono)
  next
    case False
    then have lt: "ex + 1 \<le> ey" using exy by simp
    then have eyy: "ey = expo y" by (simp add: ex_def ey_def)
    have "x < 2 powi (expo x + 1)" using expo_bounds(2) [OF x] .
    also have "\<dots> \<le> 2 powi (ex + 1)"
      by (intro power_int_increasing) (simp_all add: ex_def)
    finally have "x / 2 powi (ex - 52) \<le> 2 powi (ex + 1) / 2 powi (ex - 52)"
      by (simp add: divide_right_mono less_imp_le)
    also have "\<dots> = of_int (2 ^ 53)"
      by (simp add: power_int_diff [symmetric])
    finally have "round_even (x / 2 powi (ex - 52)) \<le> round_even (of_int (2 ^ 53))"
      by (rule round_even_mono)
    then have "round_even (x / 2 powi (ex - 52)) \<le> 2 ^ 53"
      by (simp only: round_even_of_int)
    then have "(of_int (round_even (x / 2 powi (ex - 52))) :: rat) \<le> 2 ^ 53"
      by (rule of_int_le_pow2)
    then have "rnd x \<le> 2 ^ 53 * 2 powi (ex - 52)"
      using rx by (simp add: mult_right_mono)
    also have "\<dots> = 2 powi (ex + 1)" by (simp add: power_int_diff power_int_add)
    also have "\<dots> \<le> 2 powi ey" using lt by (intro power_int_increasing) simp_all
    finally have up: "rnd x \<le> 2 powi ey" .
    have "(2::rat) powi ey / 2 powi (ey - 52) \<le> y / 2 powi (ey - 52)"
      using expo_bounds(1) [OF y] eyy by (simp add: divide_right_mono)
    moreover have "(2::rat) powi ey / 2 powi (ey - 52) = of_int (2 ^ 52)"
      by (simp add: power_int_diff [symmetric])
    ultimately have "of_int (2 ^ 52) \<le> y / 2 powi (ey - 52)" by simp
    then have "round_even (of_int (2 ^ 52)) \<le> round_even (y / 2 powi (ey - 52))"
      by (rule round_even_mono)
    then have "2 ^ 52 \<le> round_even (y / 2 powi (ey - 52))"
      by (simp only: round_even_of_int)
    then have "(2 ^ 52 :: rat) \<le> of_int (round_even (y / 2 powi (ey - 52)))"
      by (rule pow2_le_of_int)
    then have "2 ^ 52 * 2 powi (ey - 52) \<le> rnd y"
      using ry by (simp add: mult_right_mono)
    moreover have "(2::rat) ^ 52 * 2 powi (ey - 52) = 2 powi ey"
      by (simp add: power_int_diff)
    ultimately show ?thesis using up by simp
  qed
qed

lemma fl_zero [simp]: "fl 0 = Finite 0"
  by (simp add: fl_def)

lemma fl_not_NaN [simp]: "fl x \<noteq> NaN"
  by (simp add: fl_def Let_def)

lemma fl_nonneg:
  assumes "0 \<le> x"
  shows "fl x = PosInfinity \<or> (fl x = Finite (rnd x) \<and> 0 \<le> rnd x)"
proof -
  have "0 \<le> rnd x" using assms by (rule rnd_nonneg)
  moreover have "(0::rat) < 2 powi 1024" by simp
  ultimately show ?thesis by (auto simp add: fl_def Let_def)
qed

lemma rnd_pow2: "- 1074 \<le> k \<Longrightarrow> rnd (2 powi k) = 2 powi k"
  using rnd_exact [of 1 k] by simp

lemma fl_finite:
  assumes "0 \<le> x" and "x \<le> 2 powi k" and "- 1074 \<le> k" and "k < 1024"
  shows "fl x = Finite (rnd x)" and "0 \<le> rnd x" and "rnd x \<le> 2 powi k"
proof -
  show nn: "0 \<le> rnd x" using assms(1) by (rule rnd_nonneg)
  have "rnd x \<le> rnd (2 powi k)" using assms(1,2) by (rule rnd_mono)
  then show le: "rnd x \<le> 2 powi k" using rnd_pow2 [OF assms(3)] by simp
  have "(2::rat) powi k < 2 powi 1024"
    using assms(4) by (intro power_int_strict_increasing) simp_all
  then have "rnd x < 2 powi 1024" using le by simp
  then show "fl x = Finite (rnd x)" using nn by (simp add: fl_def Let_def not_le)
qed

lemma fl_of_nat:
  assumes "n < 2 ^ 53"
  shows "fl (of_nat n) = Finite (of_nat n)"
proof -
  have "(of_nat n :: rat) < 2 ^ 53"
    using assms by (metis of_nat_less_iff of_nat_numeral of_nat_power)
  also have "\<dots> < 2 powi 1024" by simp
  finally show ?thesis using rnd_of_nat [OF assms] by (simp add: fl_def Let_def not_le)
qed

lemma fl_numeral [simp]:
  "numeral k < (2::nat) ^ 53 \<Longrightarrow> fl (numeral k) = Finite (numeral k)"
  using fl_of_nat [of "numeral k"] by simp

lemma fl_one [simp]: "fl 1 = Finite 1"
  using fl_of_nat [of 1] by simp

lemma js_ge_fl_mono:
  assumes "0 \<le> x" and "x \<le> y"
  shows "js_ge (fl y) (fl x)"
proof -
  have m: "rnd x \<le> rnd y" using assms by (rule rnd_mono)
  have "0 \<le> rnd x" using assms(1) by (rule rnd_nonneg)
  then show ?thesis using m by (auto simp add: fl_def Let_def js_ge_def not_le)
qed

lemma js_ge_fl_zero:
  assumes "0 \<le> x"
  shows "js_ge (fl x) (Finite 0)"
  using js_ge_fl_mono [of 0 x] assms by simp

lemma Number_bigint_exact: "n < 2 ^ 53 \<Longrightarrow> Number_bigint n = Finite (of_nat n)"
  by (simp add: Number_bigint_def fl_of_nat)

lemma Number_ether_mono:
  "a \<le> b \<Longrightarrow> js_ge (Number_ether (FormatEther b)) (Number_ether (FormatEther a))"
  by (simp add: js_ge_fl_mono divide_right_mono)

lemma Number_ether_zero [simp]: "Number_ether (FormatEther 0) = Finite 0"
  by simp

lemma Number_ether_ge_zero: "js_ge (Number_ether (FormatEther w)) (Finite 0)"
  by (simp add: js_ge_fl_zero)

lemma Number_ether_whole:
  assumes "n < 2 ^ 53"
  shows "Number_ether (FormatEther (n * 10 ^ 18)) = Finite (of_nat n)"
  using fl_of_nat [OF assms] by simp

lemma round_even_unique:
  assumes "\<bar>x - of_int n\<bar> < 1 / 2"
  shows "round_even x = n"
proof -
  have "\<bar>(of_int (round_even x) :: rat) - of_int n\<bar> < 1"
    using round_even_near [of x] assms by linarith
  then have "\<bar>(of_int (round_even x - n) :: rat)\<bar> < 1" by simp
  then have "\<bar>round_even x - n\<bar> < 1"
    by (metis of_int_abs of_int_less_iff of_int_1)
  then show ?thesis by simp
qed

lemma rnd_normal:
  assumes "2 powi e \<le> x" and "x < 2 powi (e + 1)" and "- 1022 \<le> e"
  shows "rnd x = of_int (round_even (x / 2 powi (e - 52))) * 2 powi (e - 52)"
proof -
  have "0 < x" using assms(1) by (meson less_le_trans zero_less_numeral zero_less_power_int)
  moreover have "expo x = e" using assms(1,2) by (rule expo_unique)
  ultimately show ?thesis using assms(3) by (simp add: rnd_def Let_def max_def)
qed

lemma Number_ether_one_plus_wei: "Number_ether (FormatEther 1000000000000000001) = Finite 1"
proof -
  let ?x = "1000000000000000001 / 10 ^ 18 :: rat"
  have "rnd ?x = of_int (round_even (?x / 2 powi (0 - 52))) * 2 powi (0 - 52)"
    by (rule rnd_normal) simp_all
  moreover have "round_even (?x / 2 powi (0 - 52)) = 2 ^ 52"
    by (rule round_even_unique) simp
  ultimately have "rnd ?x = 1" by simp
  then show ?thesis by (simp add: fl_def)
qed

lemma Number_ether_pos:
  assumes "0 < w"
  shows "js_gt (Number_ether (FormatEther w)) (Finite 0)"
proof -
  have "(1::rat) \<le> of_nat w" using assms by simp
  then have "(1::rat) / 10 ^ 18 \<le> of_nat w / 10 ^ 18" by (simp add: divide_right_mono)
  moreover have "(2::rat) powi (- 60) \<le> 1 / 10 ^ 18" by simp
  ultimately have x: "(2::rat) powi (- 60) \<le> of_nat w / 10 ^ 18" by simp
  have "rnd (2 powi (- 60)) \<le> rnd (of_nat w / 10 ^ 18)"
    using x by (intro rnd_mono) simp_all
  then have "(0::rat) < rnd (of_nat w / 10 ^ 18)"
    using rnd_pow2 [of "- 60"] by simp
  then show ?thesis by (auto simp add: fl_def Let_def js_gt_def)
qed

lemma Number_ether_guard: "js_gt (Number_ether (FormatEther w)) (Finite 0) \<longleftrightarrow> 0 < w"
  using Number_ether_pos [of w] by (cases "w = 0") (simp_all add: js_gt_def)

lemma Number_ether_uint256:
  assumes "w < 2 ^ 256"
  shows "\<exists>r. Number_ether (FormatEther w) = Finite r \<and> 0 \<le> r \<and> r \<le> 2 powi 256 \<and>
             r = rnd (of_nat w / 10 ^ 18) \<and> (0 < w \<longrightarrow> 2 powi (- 60) \<le> r)"
proof -
  let ?x = "of_nat w / 10 ^ 18 :: rat"
  have "(of_nat w :: rat) < 2 ^ 256"
    using assms by (metis of_nat_less_iff of_nat_numeral of_nat_power)
  moreover have "?x \<le> of_nat w" by (simp add: divide_le_eq)
  ultimately have up: "?x \<le> 2 powi 256" by simp
  have f: "fl ?x = Finite (rnd ?x)" "0 \<le> rnd ?x" "rnd ?x \<le> 2 powi 256"
    using fl_finite [of ?x 256] up by simp_all
  have lo: "2 powi (- 60) \<le> rnd ?x" if "0 < w"
  proof -
    have "(1::rat) \<le> of_nat w" using that by simp
    then have "(1::rat) / 10 ^ 18 \<le> ?x" by (simp add: divide_right_mono)
    moreover have "(2::rat) powi (- 60) \<le> 1 / 10 ^ 18" by simp
    ultimately have "(2::rat) powi (- 60) \<le> ?x" by simp
    then have "rnd (2 powi (- 60)) \<le> rnd ?x" by (intro rnd_mono) simp_all
    then show ?thesis using rnd_pow2 [of "- 60"] by simp
  qed
  show ?thesis using f lo by simp
qed

lemma progress_value:
  assumes g: "0 < g" "g < 2 ^ 256" and r: "r < 2 ^ 256"
  shows "\<exists>p. Math_min
                (js_mul (js_div (Number_ether (FormatEther r)) (Number_ether (FormatEther g)))
                   (Finite 100))
                (Finite 100) = Finite p \<and>
             0 \<le> p \<and> p \<le> 100 \<and> (g \<le> r \<longrightarrow> p = 100)"
proof -
  obtain a where a: "Number_ether (FormatEther r) = Finite a" "0 \<le> a" "a \<le> 2 powi 256"
      "a = rnd (of_nat r / 10 ^ 18)"
    using Number_ether_uint256 [OF r] by blast
  obtain b where b: "Number_ether (FormatEther g) = Finite b" "2 powi (- 60) \<le> b"
      "b = rnd (of_nat g / 10 ^ 18)"
    using Number_ether_uint256 [OF g(2)] g(1) by blast
  have bpos: "0 < b" using b(2) by (meson less_le_trans zero_less_numeral zero_less_power_int)
  have "a / b \<le> 2 powi 256 / 2 powi (- 60)"
    using a(2,3) b(2) bpos by (intro frac_le) simp_all
  also have "\<dots> = 2 powi 316" by (simp add: power_int_diff [symmetric])
  finally have q: "0 \<le> a / b" "a / b \<le> 2 powi 316" using a(2) bpos by simp_all
  have fq: "fl (a / b) = Finite (rnd (a / b))" "0 \<le> rnd (a / b)" "rnd (a / b) \<le> 2 powi 316"
    using fl_finite [OF q] by simp_all
  have "rnd (a / b) * 100 \<le> 2 powi 316 * 2 powi 7"
    using fq(2,3) by (intro mult_mono) simp_all
  also have "\<dots> = 2 powi 323" by (simp add: power_int_add [symmetric])
  finally have m: "0 \<le> rnd (a / b) * 100" "rnd (a / b) * 100 \<le> 2 powi 323"
    using fq(2) by simp_all
  have fm: "fl (rnd (a / b) * 100) = Finite (rnd (rnd (a / b) * 100))"
      "0 \<le> rnd (rnd (a / b) * 100)"
    using fl_finite [OF m] by simp_all
  have val: "Math_min
                (js_mul (js_div (Number_ether (FormatEther r)) (Number_ether (FormatEther g)))
                   (Finite 100))
                (Finite 100) = Finite (min (rnd (rnd (a / b) * 100)) 100)"
    using a(1) b(1) bpos fq(1) fm(1) by simp
  have full: "min (rnd (rnd (a / b) * 100)) 100 = 100" if "g \<le> r"
  proof -
    have "(of_nat g :: rat) / 10 ^ 18 \<le> of_nat r / 10 ^ 18"
      using that by (simp add: divide_right_mono)
    then have "b \<le> a" unfolding a(4) b(3) by (intro rnd_mono) simp_all
    then have "1 \<le> a / b" using bpos by simp
    then have "rnd 1 \<le> rnd (a / b)" by (intro rnd_mono) simp_all
    then have "1 \<le> rnd (a / b)" using rnd_of_nat [of 1] by simp
    then have "100 \<le> rnd (a / b) * 100" by simp
    then have "rnd 100 \<le> rnd (rnd (a / b) * 100)" by (intro rnd_mono) simp_all
    then have "100 \<le> rnd (rnd (a / b) * 100)" using rnd_of_nat [of 100] by simp
    then show ?thesis by simp
  qed
  show ?thesis using val fm(2) full by auto
qed

lemma fl_half [simp]: "fl (1 / 2) = Finite (1 / 2)"
proof -
  have "rnd (of_int 1 * 2 powi (- 1)) = of_int 1 * 2 powi (- 1)"
    by (rule rnd_exact) simp_all
  then have "rnd (1 / 2) = 1 / 2" by simp
  then show ?thesis by (simp add: fl_def)
qed

lemma fl_third: "fl (1 / 3) = Finite (6004799503160661 / 2 ^ 54)"
proof -
  have "rnd (1 / 3) = of_int (round_even ((1 / 3) / 2 powi (- 2 - 52))) * 2 powi (- 2 - 52)"
    by (rule rnd_normal) simp_all
  moreover have "round_even ((1 / 3) / 2 powi (- 2 - 52)) = 6004799503160661"
    by (rule round_even_unique) simp
  ultimately have "rnd (1 / 3) = 6004799503160661 / 2 ^ 54" by simp
  then show ?thesis by (simp add: fl_def)
qed

lemma fl_third_percent:
  "fl (150119987579016525 / 4503599627370496) = Finite (4691249611844266 / 2 ^ 47)"
proof -
  let ?x = "150119987579016525 / 4503599627370496 :: rat"
  have "rnd ?x = of_int (round_even (?x / 2 powi (5 - 52))) * 2 powi (5 - 52)"
    by (rule rnd_normal) simp_all
  moreover have "round_even (?x / 2 powi (5 - 52)) = 4691249611844266"
    by (rule round_even_unique) simp
  ultimately have "rnd ?x = 4691249611844266 / 2 ^ 47" by simp
  then show ?thesis by (simp add: fl_def)
qed

lemma rnd_rel:
  assumes "2 powi (- 1022) \<le> x"
  shows "\<bar>rnd x - x\<bar> \<le> x / 2 ^ 53"
proof -
  have pos: "0 < x" using assms by (meson less_le_trans zero_less_numeral zero_less_power_int)
  define e where "e = expo x"
  have lo: "2 powi e \<le> x" and hi: "x < 2 powi (e + 1)"
    using expo_bounds [OF pos] by (simp_all add: e_def)
  have "(2::rat) powi (- 1022) < 2 powi (e + 1)" using assms hi by simp
  then have e: "- 1022 \<le> e" using powi_less_exp [of "- 1022" "e + 1"] by simp
  define U :: rat where "U = 2 powi (e - 52)"
  have U: "0 < U" by (simp add: U_def)
  have r: "rnd x = of_int (round_even (x / U)) * U"
    unfolding U_def using lo hi e by (rule rnd_normal)
  have "rnd x - x = (of_int (round_even (x / U)) - x / U) * U"
    using U by (simp add: r field_simps)
  then have "\<bar>rnd x - x\<bar> = \<bar>of_int (round_even (x / U)) - x / U\<bar> * U"
    using U by (simp add: abs_mult)
  also have "\<dots> \<le> (1 / 2) * U"
    using round_even_near [of "x / U"] U by (intro mult_right_mono) simp_all
  also have "\<dots> = 2 powi e / 2 ^ 53"
    by (simp add: U_def power_int_diff)
  also have "\<dots> \<le> x / 2 ^ 53" using lo by (simp add: divide_right_mono)
  finally show ?thesis .
qed

lemma rnd_rel_bounds:
  assumes "2 powi (- 1022) \<le> x"
  shows "x * (1 - 1 / 2 ^ 53) \<le> rnd x" and "rnd x \<le> x * (1 + 1 / 2 ^ 53)"
proof -
  define c where "c = x / 2 ^ 53"
  have d: "\<bar>rnd x - x\<bar> \<le> c" unfolding c_def using assms by (rule rnd_rel)
  have lo: "x * (1 - 1 / 2 ^ 53) = x - c" and hi: "x * (1 + 1 / 2 ^ 53) = x + c"
    by (simp_all add: c_def right_diff_distrib distrib_left)
  show "x * (1 - 1 / 2 ^ 53) \<le> rnd x" unfolding lo using d by linarith
  show "rnd x \<le> x * (1 + 1 / 2 ^ 53)" unfolding hi using d by linarith
qed

lemma progress_formula:
  assumes g: "0 < g" "g < 2 ^ 256" and r: "r < 2 ^ 256"
  shows "Math_min
           (js_mul (js_div (Number_ether (FormatEther r)) (Number_ether (FormatEther g)))
              (Finite 100))
           (Finite 100) =
         Finite (min (rnd (rnd (rnd (of_nat r / 10 ^ 18) / rnd (of_nat g / 10 ^ 18)) * 100)) 100)"
proof -
  obtain a where a: "Number_ether (FormatEther r) = Finite a" "0 \<le> a" "a \<le> 2 powi 256"
      "a = rnd (of_nat r / 10 ^ 18)"
    using Number_ether_uint256 [OF r] by blast
  obtain b where b: "Number_ether (FormatEther g) = Finite b" "2 powi (- 60) \<le> b"
      "b = rnd (of_nat g / 10 ^ 18)"
    using Number_ether_uint256 [OF g(2)] g(1) by blast
  have bpos: "0 < b" using b(2) by (meson less_le_trans zero_less_numeral zero_less_power_int)
  have "a / b \<le> 2 powi 256 / 2 powi (- 60)"
    using a(2,3) b(2) bpos by (intro frac_le) simp_all
  also have "\<dots> = 2 powi 316" by (simp add: power_int_diff [symmetric])
  finally have q: "0 \<le> a / b" "a / b \<le> 2 powi 316" using a(2) bpos by simp_all
  have fq: "fl (a / b) = Finite (rnd (a / b))" "0 \<le> rnd (a / b)" "rnd (a / b) \<le> 2 powi 316"
    using fl_finite [OF q] by simp_all
  have "rnd (a / b) * 100 \<le> 2 powi 316 * 2 powi 7"
    using fq(2,3) by (intro mult_mono) simp_all
  also have "\<dots> = 2 powi 323" by (simp add: power_int_add [symmetric])
  finally have m: "0 \<le> rnd (a / b) * 100" "rnd (a / b) * 100 \<le> 2 powi 323"
    using fq(2) by simp_all
  have fm: "fl (rnd (a / b) * 100) = Finite (rnd (rnd (a / b) * 100))"
    using fl_finite [OF m] by simp_all
  have "Math_min
           (js_mul (js_div (Number_ether (FormatEther r)) (Number_ether (FormatEther g)))
              (Finite 100))
           (Finite 100) = Finite (min (rnd (rnd (a / b) * 100)) 100)"
    using a(1) b(1) bpos fq(1) fm by simp
  then show ?thesis unfolding a(4) b(3) .
qed

lemma progress_error:
  assumes g: "0 < g" "g < 2 ^ 256" and r: "r < 2 ^ 256"
  shows "\<bar>min (rnd (rnd (rnd (of_nat r / 10 ^ 18) / rnd (of_nat g / 10 ^ 18)) * 100)) 100
            - min (of_nat r / of_nat g * 100) 100\<bar>
         \<le> min (of_nat r / of_nat g * 100) 100 / 2 ^ 50"
proof (cases "r = 0")
  case True
  then show ?thesis by simp
next
  case False
  define x y :: rat where "x = of_nat r / 10 ^ 18" and "y = of_nat g / 10 ^ 18"
  define E :: rat where "E = of_nat r / of_nat g * 100"
  define lo hi :: rat where "lo = 1 - 1 / 2 ^ 53" and "hi = 1 + 1 / 2 ^ 53"
  have lohi: "0 < lo" "0 < hi" "lo \<le> 1" by (simp_all add: lo_def hi_def)
  have small: "(1::rat) / 10 ^ 18 \<ge> 2 powi (- 60)" by simp
  have "(1::rat) \<le> of_nat r" using False by simp
  then have "(1::rat) / 10 ^ 18 \<le> x" unfolding x_def by (simp add: divide_right_mono)
  then have x60: "2 powi (- 60) \<le> x" using small by simp
  have "(1::rat) \<le> of_nat g" using g(1) by simp
  then have "(1::rat) / 10 ^ 18 \<le> y" unfolding y_def by (simp add: divide_right_mono)
  then have y60: "2 powi (- 60) \<le> y" using small by simp
  have xpos: "0 < x" and ypos: "0 < y"
    using x60 y60 by (meson less_le_trans zero_less_numeral zero_less_power_int)+
  have "(of_nat r :: rat) < 2 ^ 256"
    using r by (metis of_nat_less_iff of_nat_numeral of_nat_power)
  moreover have "x \<le> of_nat r" unfolding x_def by (simp add: divide_le_eq)
  ultimately have x256: "x \<le> 2 powi 256" by simp
  have "(of_nat g :: rat) < 2 ^ 256"
    using g(2) by (metis of_nat_less_iff of_nat_numeral of_nat_power)
  moreover have "y \<le> of_nat g" unfolding y_def by (simp add: divide_le_eq)
  ultimately have y256: "y \<le> 2 powi 256" by simp
  have E: "E = x / y * 100" by (simp add: E_def x_def y_def)
  have Epos: "0 < E" unfolding E using xpos ypos by simp
  have n1022: "(2::rat) powi (- 1022) \<le> 2 powi (- 60)" "(2::rat) powi (- 1022) \<le> 2 powi (- 318)"
    by (simp_all add: power_int_increasing)
  define a b where "a = rnd x" and "b = rnd y"
  have nx: "2 powi (- 1022) \<le> x" using n1022(1) x60 by (rule order_trans)
  have ny: "2 powi (- 1022) \<le> y" using n1022(1) y60 by (rule order_trans)
  have a: "x * lo \<le> a" "a \<le> x * hi"
    unfolding a_def lo_def hi_def by (rule rnd_rel_bounds [OF nx])+
  have b: "y * lo \<le> b" "b \<le> y * hi"
    unfolding b_def lo_def hi_def by (rule rnd_rel_bounds [OF ny])+
  have apos: "0 < a" using a(1) xpos lohi(1) by (meson less_le_trans mult_pos_pos)
  have bpos: "0 < b" using b(1) ypos lohi(1) by (meson less_le_trans mult_pos_pos)
  have a60: "2 powi (- 60) \<le> a"
    unfolding a_def using rnd_mono [of "2 powi (- 60)" x] x60 rnd_pow2 [of "- 60"] by simp
  have b256: "b \<le> 2 powi 256"
    unfolding b_def using rnd_mono [of y "2 powi 256"] y256 ypos rnd_pow2 [of 256] by simp
  have "2 powi (- 60) / 2 powi 256 \<le> a / b"
    using a60 b256 bpos by (intro frac_le) simp_all
  moreover have "(2::rat) powi (- 60) / 2 powi 256 = 2 powi (- 316)"
    by (simp add: power_int_diff [symmetric])
  ultimately have q316: "2 powi (- 316) \<le> a / b" by simp
  have n316: "(2::rat) powi (- 1022) \<le> 2 powi (- 316)" by (simp add: power_int_increasing)
  define q where "q = rnd (a / b)"
  have nq: "2 powi (- 1022) \<le> a / b" using n316 q316 by (rule order_trans)
  have q: "a / b * lo \<le> q" "q \<le> a / b * hi"
    unfolding q_def lo_def hi_def by (rule rnd_rel_bounds [OF nq])+
  have qpos: "0 < q" using q(1) apos bpos lohi(1)
    by (meson divide_pos_pos less_le_trans mult_pos_pos)
  have q316': "2 powi (- 316) \<le> q"
    unfolding q_def using rnd_mono [of "2 powi (- 316)" "a / b"] q316 rnd_pow2 [of "- 316"] by simp
  have "2 powi (- 316) * 1 \<le> q * 100" using q316' by (intro mult_mono) simp_all
  then have "2 powi (- 316) \<le> q * 100" by simp
  with n316 have m1022: "2 powi (- 1022) \<le> q * 100" by (rule order_trans)
  define m where "m = rnd (q * 100)"
  have m: "q * 100 * lo \<le> m" "m \<le> q * 100 * hi"
    unfolding m_def lo_def hi_def by (rule rnd_rel_bounds [OF m1022])+
  have ab_hi: "a / b \<le> (x * hi) / (y * lo)"
    using a(2) b(1) apos xpos ypos lohi(1,2) by (intro frac_le) simp_all
  have ab_lo: "(x * lo) / (y * hi) \<le> a / b"
    using a(1) b(2) apos bpos xpos lohi(1) by (intro frac_le) simp_all
  have "m \<le> q * 100 * hi" by (rule m(2))
  also have "\<dots> \<le> (a / b * hi) * 100 * hi"
    using q(2) lohi(2) by (intro mult_right_mono) simp_all
  also have "\<dots> \<le> ((x * hi) / (y * lo) * hi) * 100 * hi"
    using ab_hi lohi(2) by (intro mult_right_mono) simp_all
  also have "\<dots> = E * (hi * hi * hi / lo)" by (simp add: E)
  finally have up: "m \<le> E * (hi * hi * hi / lo)" .
  have "E * (lo * lo * lo / hi) = ((x * lo) / (y * hi) * lo) * 100 * lo" by (simp add: E)
  also have "\<dots> \<le> (a / b * lo) * 100 * lo"
    using ab_lo lohi(1) by (intro mult_right_mono) simp_all
  also have "\<dots> \<le> q * 100 * lo"
    using q(1) lohi(1) by (intro mult_right_mono) simp_all
  also have "\<dots> \<le> m" by (rule m(1))
  finally have down: "E * (lo * lo * lo / hi) \<le> m" .
  have K: "hi * hi * hi / lo \<le> 1 + 1 / 2 ^ 50" "1 - 1 / 2 ^ 50 \<le> lo * lo * lo / hi"
    by (simp_all add: lo_def hi_def)
  define c where "c = E / 2 ^ 50"
  have cpos: "0 \<le> c" using Epos by (simp add: c_def)
  have e1: "E * (1 + 1 / 2 ^ 50) = E + c" "E * (1 - 1 / 2 ^ 50) = E - c"
    by (simp_all add: c_def distrib_left right_diff_distrib)
  have "E * (hi * hi * hi / lo) \<le> E * (1 + 1 / 2 ^ 50)"
    using K(1) Epos by (intro mult_left_mono) simp_all
  then have up': "m \<le> E + c" using up unfolding e1 by linarith
  have "E * (1 - 1 / 2 ^ 50) \<le> E * (lo * lo * lo / hi)"
    using K(2) Epos by (intro mult_left_mono) simp_all
  then have down': "E - c \<le> m" using down unfolding e1 by linarith
  have full: "100 \<le> m" if "g \<le> r"
  proof -
    have "y \<le> x" unfolding x_def y_def using that by (simp add: divide_right_mono)
    then have "b \<le> a" unfolding a_def b_def using ypos by (intro rnd_mono) simp_all
    then have "1 \<le> a / b" using bpos by simp
    then have "rnd 1 \<le> q" unfolding q_def by (intro rnd_mono) simp_all
    then have "1 \<le> q" using rnd_of_nat [of 1] by simp
    then have "100 \<le> q * 100" by simp
    then have "rnd 100 \<le> m" unfolding m_def by (intro rnd_mono) simp_all
    then show ?thesis using rnd_of_nat [of 100] by simp
  qed
  have goal: "\<bar>min m 100 - min E 100\<bar> \<le> min E 100 / 2 ^ 50"
  proof (cases "E \<le> 100")
    case True
    then have mE: "min E 100 = E" by simp
    have "\<bar>min m 100 - E\<bar> \<le> c"
      using up' down' True cpos by (cases "m \<le> 100") (simp_all add: abs_le_iff)
    then show ?thesis unfolding mE c_def .
  next
    case False
    then have "of_nat g < (of_nat r :: rat)"
      using g(1) by (simp add: E_def divide_simps split: if_splits)
    then have "g \<le> r" by simp
    then have "min m 100 = 100" using full by simp
    then show ?thesis using False by simp
  qed
  show ?thesis
    using goal unfolding m_def q_def a_def b_def x_def y_def E_def .
qed

section \<open>Properties of the details page\<close>

lemmas fixtures = sample_campaign_def contract_of_def initial_details_def

text \<open>
  C1, as the code has it. When the ledger record and the donor count are read, the view is
  built and its status is SUCCESSFUL when \<open>Number(raised) >= Number(goal)\<close>, the two
  amounts in ether read as doubles, whatever the goal is; otherwise ENDED when now is at or
  past the deadline as read; otherwise ACTIVE. So the status is SUCCESSFUL whenever the
  amount raised is at least the goal in wei, and always for a goal of zero: the status
  test has no condition on the goal being positive. A deadline below \<open>2 ^ 53\<close> is read
  exactly. The amount raised is \<open>raised\<close>, or \<open>raisedAmount\<close>, or zero.
\<close>

theorem fetchCampaign_status:
  assumes "getCampaign contract i = Inr c" and "getDonorCount contract i = Inr n"
    and "rv = or_bigint (Campaign.raised c) (or_bigint (Campaign.raisedAmount c) 0)"
  shows "\<exists>v. fetchCampaign_try (Inr contract) now i = Inr v \<and>
           CampaignData.status v =
             (if js_ge (Number_ether (FormatEther rv)) (Number_ether (FormatEther (Campaign.goal c)))
              then SUCCESSFUL
              else if js_ge (Finite (of_nat now)) (Number_bigint (Campaign.deadline c))
              then ENDED else ACTIVE) \<and>
           (Campaign.goal c \<le> rv \<longrightarrow> CampaignData.status v = SUCCESSFUL) \<and>
           (Campaign.goal c = 0 \<longrightarrow> CampaignData.status v = SUCCESSFUL) \<and>
           (Campaign.deadline c < 2 ^ 53 \<longrightarrow>
              (js_ge (Finite (of_nat now)) (Number_bigint (Campaign.deadline c))
                 \<longleftrightarrow> Campaign.deadline c \<le> now))"
proof -
  have a: "Campaign.goal c \<le> rv \<Longrightarrow>
      js_ge (Number_ether (FormatEther rv)) (Number_ether (FormatEther (Campaign.goal c)))"
    by (rule Number_ether_mono)
  have b: "Campaign.deadline c < 2 ^ 53 \<Longrightarrow>
      (js_ge (Finite (of_nat now)) (Number_bigint (Campaign.deadline c))
         \<longleftrightarrow> Campaign.deadline c \<le> now)"
    by (simp add: Number_bigint_exact js_ge_def not_less)
  show ?thesis
    using assms a b
    by (auto simp add: fetchCampaign_try_def Let_def Number_ether_ge_zero
        simp del: Number_ether.simps)
qed

theorem fetchCampaign_status_witness:
  "getCampaign (contract_of (sample_campaign (10 * 10 ^ 18) (Some (5 * 10 ^ 18)) None 900) (Inr 2)) 0
     = Inr (sample_campaign (10 * 10 ^ 18) (Some (5 * 10 ^ 18)) None 900) \<and>
   getDonorCount (contract_of (sample_campaign (10 * 10 ^ 18) (Some (5 * 10 ^ 18)) None 900)
     (Inr 2)) 0 = Inr 2 \<and>
   map_sum message CampaignData.status
     (fetchCampaign_try
        (Inr (contract_of (sample_campaign (10 * 10 ^ 18) (Some (5 * 10 ^ 18)) None 900) (Inr 2)))
        1000 0)
     = Inr ENDED \<and>
   map_sum message CampaignData.status
     (fetchCampaign_try
        (Inr (contract_of (sample_campaign (10 * 10 ^ 18) (Some (5 * 10 ^ 18)) None 2000) (Inr 2)))
        1000 0)
     = Inr ACTIVE \<and>
   map_sum message CampaignData.status
     (fetchCampaign_try
        (Inr (contract_of (sample_campaign (10 * 10 ^ 18) None (Some (10 * 10 ^ 18)) 2000) (Inr 2)))
        1000 0)
     = Inr SUCCESSFUL \<and>
   Campaign.goal (sample_campaign 0 None None 2000) = 0 \<and>
   map_sum message CampaignData.status
     (fetchCampaign_try (Inr (contract_of (sample_campaign 0 None None 2000) (Inr 2))) 1000 0)
     = Inr SUCCESSFUL \<and>
   (10 ^ 18 :: nat) < Campaign.goal (sample_campaign (10 ^ 18 + 1) (Some (10 ^ 18)) None 2000) \<and>
   map_sum message CampaignData.status
     (fetchCampaign_try
        (Inr (contract_of (sample_campaign (10 ^ 18 + 1) (Some (10 ^ 18)) None 2000) (Inr 2)))
        1000 0)
     = Inr SUCCESSFUL"
proof -
  have one: "Number_ether (FormatEther 1000000000000000000) = Finite 1" by simp
  have rounding:
    "map_sum message CampaignData.status
       (fetchCampaign_try
          (Inr (contract_of (sample_campaign (10 ^ 18 + 1) (Some (10 ^ 18)) None 2000) (Inr 2)))
          1000 0)
       = Inr SUCCESSFUL"
    by (simp add: fetchCampaign_try_def fixtures Let_def js_ge_def one Number_ether_one_plus_wei
        del: Number_ether.simps)
  show ?thesis
    using fetchCampaign_status
      [of "contract_of (sample_campaign (10 * 10 ^ 18) (Some (5 * 10 ^ 18)) None 900) (Inr 2)" 0
        "sample_campaign (10 * 10 ^ 18) (Some (5 * 10 ^ 18)) None 900" 2 "5 * 10 ^ 18" 1000]
      fetchCampaign_status
      [of "contract_of (sample_campaign (10 * 10 ^ 18) (Some (5 * 10 ^ 18)) None 2000) (Inr 2)" 0
        "sample_campaign (10 * 10 ^ 18) (Some (5 * 10 ^ 18)) None 2000" 2 "5 * 10 ^ 18" 1000]
      fetchCampaign_status
      [of "contract_of (sample_campaign (10 * 10 ^ 18) None (Some (10 * 10 ^ 18)) 2000) (Inr 2)" 0
        "sample_campaign (10 * 10 ^ 18) None (Some (10 * 10 ^ 18)) 2000" 2 "10 * 10 ^ 18" 1000]
      fetchCampaign_status [of "contract_of (sample_campaign 0 None None 2000) (Inr 2)" 0
        "sample_campaign 0 None None 2000" 2 0 1000]
      rounding
    by (auto simp add: fixtures js_ge_def Number_bigint_def)
qed

text \<open>
  C1 as stated fails: with goal 0, nothing raised and the deadline (2000) after now (1000),
  the resolved status is SUCCESSFUL, not ACTIVE. It is SUCCESSFUL as well with one ether
  raised against a goal of one ether and one wei, where the amount raised is below the
  goal: the two amounts are the same double.
\<close>

theorem fetchCampaign_zero_goal_counterexample:
  "Campaign.goal (sample_campaign 0 None (Some 0) 2000) = 0 \<and>
   (1000::nat) < Campaign.deadline (sample_campaign 0 None (Some 0) 2000) \<and>
   map_sum message CampaignData.status
     (fetchCampaign_try (Inr (contract_of (sample_campaign 0 None (Some 0) 2000) (Inr 0))) 1000 0)
     = Inr SUCCESSFUL \<and>
   (10 ^ 18 :: nat) < 10 ^ 18 + 1 \<and>
   map_sum message CampaignData.status
     (fetchCampaign_try
        (Inr (contract_of (sample_campaign (10 ^ 18 + 1) (Some (10 ^ 18)) None 2000) (Inr 0)))
        1000 0)
     = Inr SUCCESSFUL"
proof -
  have one: "Number_ether (FormatEther 1000000000000000000) = Finite 1" by simp
  show ?thesis
    by (simp add: fetchCampaign_try_def fixtures Let_def js_ge_def one Number_ether_one_plus_wei
        del: Number_ether.simps)
qed

text \<open>
  C2, as the code has it. When the ledger record and the donor count are read, with the
  goal and the amount raised below \<open>2 ^ 256\<close> as the ledger's \<open>uint256\<close> has them, the
  progress of the view is a finite number in \<open>[0, 100]\<close>. For a positive goal it is
  \<open>Math.min((Number(raised) / Number(goal)) * 100, 100)\<close>, every operation rounded as a
  double, which is within a relative error of \<open>2 ^ -50\<close> of \<open>min(raised / goal * 100, 100)\<close>
  in exact arithmetic. For a goal of zero it is \<open>0\<close>: the division, which would give
  \<open>NaN\<close> or \<open>Infinity\<close>, is not evaluated. It is exactly \<open>100\<close> once the amount raised
  reaches a positive goal.
\<close>

theorem fetchCampaign_progress:
  assumes "getCampaign contract i = Inr c" and "getDonorCount contract i = Inr n"
    and "rv = or_bigint (Campaign.raised c) (or_bigint (Campaign.raisedAmount c) 0)"
    and "Campaign.goal c < 2 ^ 256" and "rv < 2 ^ 256"
  shows "\<exists>v p. fetchCampaign_try (Inr contract) now i = Inr v \<and>
           CampaignData.progress v = Finite p \<and> 0 \<le> p \<and> p \<le> 100 \<and>
           CampaignData.progress v =
             (if 0 < Campaign.goal c
              then Math_min
                     (js_mul (js_div (Number_ether (FormatEther rv))
                                (Number_ether (FormatEther (Campaign.goal c))))
                        (Finite 100))
                     (Finite 100)
              else Finite 0) \<and>
           \<bar>p - spec_progress rv (Campaign.goal c)\<bar> \<le> spec_progress rv (Campaign.goal c) / 2 ^ 50 \<and>
           (Campaign.goal c = 0 \<longrightarrow>
              p = 0 \<and>
              js_div (Number_ether (FormatEther rv)) (Number_ether (FormatEther (Campaign.goal c)))
                \<in> {NaN, PosInfinity}) \<and>
           (0 < Campaign.goal c \<and> Campaign.goal c \<le> rv \<longrightarrow> p = 100)"
proof (cases "Campaign.goal c = 0")
  case True
  obtain a where a: "Number_ether (FormatEther rv) = Finite a" "0 \<le> a"
    using Number_ether_uint256 [OF assms(5)] by blast
  have "js_div (Finite a) (Finite 0) \<in> {NaN, PosInfinity}" using a(2) by simp
  then show ?thesis
    using assms(1-3) True a(1)
    by (simp add: fetchCampaign_try_def Let_def js_gt_def spec_progress_def
        del: Number_ether.simps)
next
  case False
  then have g: "0 < Campaign.goal c" by simp
  obtain p where p: "Math_min
                (js_mul (js_div (Number_ether (FormatEther rv))
                           (Number_ether (FormatEther (Campaign.goal c))))
                   (Finite 100))
                (Finite 100) = Finite p" "0 \<le> p" "p \<le> 100" "Campaign.goal c \<le> rv \<longrightarrow> p = 100"
    using progress_value [OF g assms(4,5)] by blast
  have "p = min (rnd (rnd (rnd (of_nat rv / 10 ^ 18) / rnd (of_nat (Campaign.goal c) / 10 ^ 18))
                        * 100)) 100"
    using p(1) progress_formula [OF g assms(4,5)] by simp
  then have e: "\<bar>p - spec_progress rv (Campaign.goal c)\<bar>
                  \<le> spec_progress rv (Campaign.goal c) / 2 ^ 50"
    using progress_error [OF g assms(4,5)] False by (simp only: spec_progress_def if_False)
  show ?thesis
    using assms(1-3) g p e Number_ether_guard [of "Campaign.goal c"]
    by (simp add: fetchCampaign_try_def Let_def del: Number_ether.simps)
qed

theorem fetchCampaign_progress_witness:
  "getCampaign (contract_of (sample_campaign (10 * 10 ^ 18) None (Some (5 * 10 ^ 18)) 2000) (Inr 3)) 0
     = Inr (sample_campaign (10 * 10 ^ 18) None (Some (5 * 10 ^ 18)) 2000) \<and>
   getDonorCount (contract_of (sample_campaign (10 * 10 ^ 18) None (Some (5 * 10 ^ 18)) 2000)
     (Inr 3)) 0 = Inr 3 \<and>
   (10 * 10 ^ 18 :: nat) < 2 ^ 256 \<and>
   map_sum message CampaignData.progress
     (fetchCampaign_try
        (Inr (contract_of (sample_campaign (10 * 10 ^ 18) None (Some (5 * 10 ^ 18)) 2000) (Inr 3)))
        1000 0)
     = Inr (Finite 50) \<and>
   map_sum message CampaignData.progress
     (fetchCampaign_try
        (Inr (contract_of (sample_campaign 0 (Some (7 * 10 ^ 18)) None 2000) (Inr 3))) 1000 0)
     = Inr (Finite 0) \<and>
   js_div (Number_ether (FormatEther (7 * 10 ^ 18))) (Number_ether (FormatEther 0)) = PosInfinity \<and>
   js_div (Number_ether (FormatEther 0)) (Number_ether (FormatEther 0)) = NaN \<and>
   map_sum message CampaignData.progress
     (fetchCampaign_try
        (Inr (contract_of (sample_campaign (10 * 10 ^ 18) (Some (20 * 10 ^ 18)) None 2000) (Inr 3)))
        1000 0)
     = Inr (Finite 100) \<and>
   map_sum message CampaignData.progress
     (fetchCampaign_try
        (Inr (contract_of (sample_campaign (3 * 10 ^ 18) (Some (10 ^ 18)) None 2000) (Inr 3)))
        1000 0)
     = Inr (Finite (4691249611844266 / 2 ^ 47)) \<and>
   spec_progress (5 * 10 ^ 18) (10 * 10 ^ 18) = 50 \<and>
   spec_progress (7 * 10 ^ 18) 0 = 0"
  using fetchCampaign_progress
      [of "contract_of (sample_campaign (10 * 10 ^ 18) None (Some (5 * 10 ^ 18)) 2000) (Inr 3)" 0
        "sample_campaign (10 * 10 ^ 18) None (Some (5 * 10 ^ 18)) 2000" 3 "5 * 10 ^ 18" 1000]
    fetchCampaign_progress
      [of "contract_of (sample_campaign 0 (Some (7 * 10 ^ 18)) None 2000) (Inr 3)" 0
        "sample_campaign 0 (Some (7 * 10 ^ 18)) None 2000" 3 "7 * 10 ^ 18" 1000]
    fetchCampaign_progress
      [of "contract_of (sample_campaign (10 * 10 ^ 18) (Some (20 * 10 ^ 18)) None 2000) (Inr 3)" 0
        "sample_campaign (10 * 10 ^ 18) (Some (20 * 10 ^ 18)) None 2000" 3 "20 * 10 ^ 18" 1000]
    fetchCampaign_progress
      [of "contract_of (sample_campaign (3 * 10 ^ 18) (Some (10 ^ 18)) None 2000) (Inr 3)" 0
        "sample_campaign (3 * 10 ^ 18) (Some (10 ^ 18)) None 2000" 3 "10 ^ 18" 1000]
  by (auto simp add: fixtures fl_third fl_third_percent spec_progress_def)

text \<open>
  C2 as stated fails: with one ether raised against a goal of one ether and one wei the
  progress is \<open>100\<close>, where \<open>raised / goal * 100\<close> is below \<open>100\<close>; and with one ether
  raised against a goal of three the progress is a double next to \<open>100 / 3\<close>, not
  \<open>100 / 3\<close>.
\<close>

theorem fetchCampaign_progress_rounding_counterexample:
  "map_sum message CampaignData.progress
     (fetchCampaign_try
        (Inr (contract_of (sample_campaign (10 ^ 18 + 1) (Some (10 ^ 18)) None 2000) (Inr 3)))
        1000 0)
     = Inr (Finite 100) \<and>
   spec_progress (10 ^ 18) (10 ^ 18 + 1) < 100 \<and>
   map_sum message CampaignData.progress
     (fetchCampaign_try
        (Inr (contract_of (sample_campaign (3 * 10 ^ 18) (Some (10 ^ 18)) None 2000) (Inr 3)))
        1000 0)
     = Inr (Finite (4691249611844266 / 2 ^ 47)) \<and>
   spec_progress (10 ^ 18) (3 * 10 ^ 18) = 100 / 3 \<and>
   (4691249611844266 / 2 ^ 47 :: rat) < 100 / 3"
proof -
  have one: "Number_ether (FormatEther 1000000000000000000) = Finite 1" by simp
  have three: "Number_ether (FormatEther 3000000000000000000) = Finite 3"
    using Number_ether_whole [of 3] by simp
  have a: "map_sum message CampaignData.progress
     (fetchCampaign_try
        (Inr (contract_of (sample_campaign (10 ^ 18 + 1) (Some (10 ^ 18)) None 2000) (Inr 3)))
        1000 0)
     = Inr (Finite 100)"
    by (simp add: fetchCampaign_try_def fixtures Let_def js_gt_def one Number_ether_one_plus_wei
        del: Number_ether.simps)
  have b: "map_sum message CampaignData.progress
     (fetchCampaign_try
        (Inr (contract_of (sample_campaign (3 * 10 ^ 18) (Some (10 ^ 18)) None 2000) (Inr 3)))
        1000 0)
     = Inr (Finite (4691249611844266 / 2 ^ 47))"
    by (simp add: fetchCampaign_try_def fixtures Let_def js_gt_def one three fl_third
        fl_third_percent del: Number_ether.simps)
  have c: "spec_progress (10 ^ 18) (10 ^ 18 + 1) < 100"
      "spec_progress (10 ^ 18) (3 * 10 ^ 18) = 100 / 3"
      "(4691249611844266 / 2 ^ 47 :: rat) < 100 / 3"
    by (simp_all add: spec_progress_def)
  show ?thesis using a b c by (intro conjI)
qed

text \<open>
  C4, as the code has it. \<open>fetchCampaign\<close> fails exactly when acquiring the contract, the
  read of the ledger record or the read of the donor count fails: it then sets no view
  (the one held before stays), records the message of that error and logs it. When all
  three succeed it sets a view and no error, and the view has the ledger's title and
  description, with the placeholders "Untitled Campaign" and "No description available"
  for empty ones, empty strings for \<open>imageUrl\<close> and \<open>videoUrl\<close>, and the ledger's
  creator, goal, amount raised, deadline and donor count: no field of the view is left
  unset. The content store is not a parameter of the call, so no state of it changes
  either outcome.
\<close>

theorem fetchCampaign_fatal_exactly:
  "(\<forall>e. p = Inl e \<or>
        (\<exists>contract. p = Inr contract \<and>
           (getCampaign contract i = Inl e \<or>
            (\<exists>c. getCampaign contract i = Inr c \<and> getDonorCount contract i = Inl e))) \<longrightarrow>
      fetchCampaign_try p now i = Inl e \<and>
      DetailsState.campaign (fetchCampaign p now i st) = DetailsState.campaign st \<and>
      fetchCampaign p now i st =
        st\<lparr> DetailsState.console :=
               DetailsState.console st @ [''Error fetching campaign: '' @ message e],
             DetailsState.error :=
               Some (or_string (message e) ''Failed to load campaign details''),
             DetailsState.loading := False \<rparr>) \<and>
   (\<forall>contract c n.
      p = Inr contract \<and> getCampaign contract i = Inr c \<and> getDonorCount contract i = Inr n \<longrightarrow>
      (\<exists>v. fetchCampaign_try p now i = Inr v \<and>
           fetchCampaign p now i st =
             st\<lparr> DetailsState.campaign := Some v, DetailsState.error := None,
                  DetailsState.loading := False \<rparr> \<and>
           CampaignData.title v = or_string (Campaign.title c) ''Untitled Campaign'' \<and>
           CampaignData.description v =
             or_string (Campaign.description c) ''No description available'' \<and>
           CampaignData.title v \<noteq> [] \<and> CampaignData.description v \<noteq> [] \<and>
           CampaignData.imageUrl v = [] \<and> CampaignData.videoUrl v = [] \<and>
           CampaignData.id' v = i \<and> CampaignData.creator v = Campaign.creator c \<and>
           CampaignData.goal v = FormatEther (Campaign.goal c) \<and>
           CampaignData.raised v =
             FormatEther (or_bigint (Campaign.raised c) (or_bigint (Campaign.raisedAmount c) 0)) \<and>
           CampaignData.deadline v = Number_bigint (Campaign.deadline c) \<and>
           CampaignData.donorCount v = n)) \<and>
   ((\<exists>e. fetchCampaign_try p now i = Inl e) \<longleftrightarrow>
      (\<exists>e. p = Inl e) \<or>
      (\<exists>contract. p = Inr contract \<and>
         ((\<exists>e. getCampaign contract i = Inl e) \<or> (\<exists>e. getDonorCount contract i = Inl e))))"
proof -
  have fail: "fetchCampaign_try p now i = Inl e \<Longrightarrow>
      DetailsState.campaign (fetchCampaign p now i st) = DetailsState.campaign st \<and>
      fetchCampaign p now i st =
        st\<lparr> DetailsState.console :=
               DetailsState.console st @ [''Error fetching campaign: '' @ message e],
             DetailsState.error :=
               Some (or_string (message e) ''Failed to load campaign details''),
             DetailsState.loading := False \<rparr>" for e
    by (simp add: fetchCampaign_def Let_def)
  have a: "p = Inl e \<Longrightarrow> fetchCampaign_try p now i = Inl e" for e
    by (simp add: fetchCampaign_try_def)
  have b: "p = Inr contract \<Longrightarrow> getCampaign contract i = Inl e \<Longrightarrow>
      fetchCampaign_try p now i = Inl e" for e contract
    by (simp add: fetchCampaign_try_def)
  have c: "p = Inr contract \<Longrightarrow> getCampaign contract i = Inr c \<Longrightarrow>
      getDonorCount contract i = Inl e \<Longrightarrow> fetchCampaign_try p now i = Inl e" for e contract c
    by (simp add: fetchCampaign_try_def Let_def)
  have first: "\<forall>e. p = Inl e \<or>
        (\<exists>contract. p = Inr contract \<and>
           (getCampaign contract i = Inl e \<or>
            (\<exists>c. getCampaign contract i = Inr c \<and> getDonorCount contract i = Inl e))) \<longrightarrow>
      fetchCampaign_try p now i = Inl e \<and>
      DetailsState.campaign (fetchCampaign p now i st) = DetailsState.campaign st \<and>
      fetchCampaign p now i st =
        st\<lparr> DetailsState.console :=
               DetailsState.console st @ [''Error fetching campaign: '' @ message e],
             DetailsState.error :=
               Some (or_string (message e) ''Failed to load campaign details''),
             DetailsState.loading := False \<rparr>"
    using fail a b c by blast
  have second: "\<forall>contract c n.
      p = Inr contract \<and> getCampaign contract i = Inr c \<and> getDonorCount contract i = Inr n \<longrightarrow>
      (\<exists>v. fetchCampaign_try p now i = Inr v \<and>
           fetchCampaign p now i st =
             st\<lparr> DetailsState.campaign := Some v, DetailsState.error := None,
                  DetailsState.loading := False \<rparr> \<and>
           CampaignData.title v = or_string (Campaign.title c) ''Untitled Campaign'' \<and>
           CampaignData.description v =
             or_string (Campaign.description c) ''No description available'' \<and>
           CampaignData.title v \<noteq> [] \<and> CampaignData.description v \<noteq> [] \<and>
           CampaignData.imageUrl v = [] \<and> CampaignData.videoUrl v = [] \<and>
           CampaignData.id' v = i \<and> CampaignData.creator v = Campaign.creator c \<and>
           CampaignData.goal v = FormatEther (Campaign.goal c) \<and>
           CampaignData.raised v =
             FormatEther (or_bigint (Campaign.raised c) (or_bigint (Campaign.raisedAmount c) 0)) \<and>
           CampaignData.deadline v = Number_bigint (Campaign.deadline c) \<and>
           CampaignData.donorCount v = n)"
    by (simp add: fetchCampaign_def fetchCampaign_try_def Let_def or_string_def
        del: Number_ether.simps)
  have third: "(\<exists>e. fetchCampaign_try p now i = Inl e) \<longleftrightarrow>
      (\<exists>e. p = Inl e) \<or>
      (\<exists>contract. p = Inr contract \<and>
         ((\<exists>e. getCampaign contract i = Inl e) \<or> (\<exists>e. getDonorCount contract i = Inl e)))"
    by (auto simp add: fetchCampaign_try_def Let_def simp del: Number_ether.simps
        split: sum.splits)
  show ?thesis using first second third by (intro conjI)
qed

theorem fetchCampaign_fatal_exactly_witness:
  "getCampaign (contract_of (sample_campaign 10 (Some 5) None 2000) (Inr 2)) 0
     = Inr (sample_campaign 10 (Some 5) None 2000) \<and>
   getDonorCount (contract_of (sample_campaign 10 (Some 5) None 2000) (Inr 2)) 0 = Inr 2 \<and>
   DetailsState.error
     (fetchCampaign (Inr (contract_of (sample_campaign 10 (Some 5) None 2000) (Inr 2))) 1000 0
        initial_details) = None \<and>
   map_option CampaignData.title
     (DetailsState.campaign
        (fetchCampaign (Inr (contract_of (sample_campaign 10 (Some 5) None 2000) (Inr 2))) 1000 0
           initial_details)) = Some ''Well'' \<and>
   map_option CampaignData.imageUrl
     (DetailsState.campaign
        (fetchCampaign (Inr (contract_of (sample_campaign 10 (Some 5) None 2000) (Inr 2))) 1000 0
           initial_details)) = Some [] \<and>
   map_option CampaignData.title
     (DetailsState.campaign
        (fetchCampaign
           (Inr (contract_of ((sample_campaign 10 (Some 5) None 2000)\<lparr> Campaign.title := [] \<rparr>)
                   (Inr 2))) 1000 0 initial_details)) = Some ''Untitled Campaign'' \<and>
   getCampaign (contract_of (sample_campaign 10 (Some 5) None 2000) (Inr 2)) 1
     = Inl (Error ''campaign does not exist'') \<and>
   fetchCampaign (Inr (contract_of (sample_campaign 10 (Some 5) None 2000) (Inr 2))) 1000 1
       initial_details
     = \<lparr> DetailsState.campaign = None, DetailsState.loading = False,
         DetailsState.error = Some ''campaign does not exist'',
         DetailsState.console = [''Error fetching campaign: campaign does not exist''] \<rparr> \<and>
   fetchCampaign (Inl (Error [])) 1000 0 initial_details
     = \<lparr> DetailsState.campaign = None, DetailsState.loading = False,
         DetailsState.error = Some ''Failed to load campaign details'',
         DetailsState.console = [''Error fetching campaign: ''] \<rparr>"
  using fetchCampaign_fatal_exactly
    [of "Inr (contract_of (sample_campaign 10 (Some 5) None 2000) (Inr 2))" 0 1000 initial_details]
    fetchCampaign_fatal_exactly
    [of "Inr (contract_of (sample_campaign 10 (Some 5) None 2000) (Inr 2))" 1 1000 initial_details]
    fetchCampaign_fatal_exactly [of "Inl (Error [])" 0 1000 initial_details]
    fetchCampaign_fatal_exactly
    [of "Inr (contract_of ((sample_campaign 10 (Some 5) None 2000)\<lparr> Campaign.title := [] \<rparr>)
               (Inr 2))" 0 1000 initial_details]
  by (auto simp add: fixtures or_string_def)

text \<open>
  C4 as stated fails: here the ledger record is read, and the call fails all the same,
  because the donor count is not.
\<close>

theorem fetchCampaign_donor_failure_fatal_counterexample:
  "getCampaign (contract_of (sample_campaign 10 None (Some 5) 2000)
       (Inl (Error ''call revert exception''))) 0
     = Inr (sample_campaign 10 None (Some 5) 2000) \<and>
   fetchCampaign_try
     (Inr (contract_of (sample_campaign 10 None (Some 5) 2000)
            (Inl (Error ''call revert exception'')))) 1000 0
     = Inl (Error ''call revert exception'')"
  by (simp add: fetchCampaign_try_def fixtures Let_def)




section \<open>Properties of the list page\<close>

lemma fetchSingleCampaign_fst:
  "fst (fetchSingleCampaign contract now i s) =
     (case fetchSingleCampaign_try contract now i of Inr v \<Rightarrow> Some v | Inl e \<Rightarrow> None)"
  by (simp add: fetchSingleCampaign_def split: sum.splits)

lemma Promise_all_fetchSingleCampaign:
  "fst (Promise_all (map (\<lambda>i. fetchSingleCampaign contract (clock i) i) xs) s) =
     map (\<lambda>i. case fetchSingleCampaign_try contract (clock i) i of
                 Inr v \<Rightarrow> Some v | Inl e \<Rightarrow> None) xs"
proof (induction xs arbitrary: s)
  case Nil
  show ?case by simp
next
  case (Cons x xs)
  obtain r s1 where t: "fetchSingleCampaign contract (clock x) x s = (r, s1)"
    by (cases "fetchSingleCampaign contract (clock x) x s")
  obtain rs s2 where ts:
    "Promise_all (map (\<lambda>i. fetchSingleCampaign contract (clock i) i) xs) s1 = (rs, s2)"
    by (cases "Promise_all (map (\<lambda>i. fetchSingleCampaign contract (clock i) i) xs) s1")
  have "r = (case fetchSingleCampaign_try contract (clock x) x of
               Inr v \<Rightarrow> Some v | Inl e \<Rightarrow> None)"
    using fetchSingleCampaign_fst [of contract "clock x" x s] t by simp
  moreover have "rs = map (\<lambda>i. case fetchSingleCampaign_try contract (clock i) i of
                 Inr v \<Rightarrow> Some v | Inl e \<Rightarrow> None) xs"
    using Cons.IH [of s1] ts by simp
  ultimately show ?case using t ts by simp
qed

lemma fetchSingleCampaign_try_id:
  "fetchSingleCampaign_try contract now i = Inr v \<Longrightarrow> CampaignView.id' v = i"
  by (auto simp add: fetchSingleCampaign_try_def Let_def split: sum.splits option.splits)

lemma map_filter_ids:
  "map CampaignView.id'
     (List.map_filter (\<lambda>i. case fetchSingleCampaign_try contract (clock i) i of
                         Inr v \<Rightarrow> Some v | Inl e \<Rightarrow> None) xs) =
   filter (\<lambda>i. \<exists>v. fetchSingleCampaign_try contract (clock i) i = Inr v) xs"
proof (induction xs)
  case Nil
  show ?case by (simp add: List.map_filter_simps)
next
  case (Cons x xs)
  show ?case
  proof (cases "fetchSingleCampaign_try contract (clock x) x")
    case (Inl e)
    then show ?thesis using Cons.IH by (simp add: List.map_filter_simps)
  next
    case (Inr v)
    then show ?thesis
      using Cons.IH fetchSingleCampaign_try_id [OF Inr]
      by (simp add: List.map_filter_simps)
  qed
qed

lemma filter_Boolean_map: "filter_Boolean (map g xs) = List.map_filter g xs"
  by (induction xs) (simp_all add: filter_Boolean_def List.map_filter_simps split: option.splits)

lemma set_map_filter: "set (List.map_filter f xs) = {u. \<exists>x\<in>set xs. f x = Some u}"
  by (induction xs) (auto simp add: List.map_filter_simps split: option.splits)

lemma fetchAllCampaigns_campaigns:
  assumes "campaignCount contract = Inr n"
  shows "ListState.campaigns (fetchAllCampaigns (Inr contract) clock st) =
           rev (List.map_filter
                  (\<lambda>i. case fetchSingleCampaign_try contract (clock i) i of
                          Inr v \<Rightarrow> Some v | Inl e \<Rightarrow> None) [0..<n])"
    and "ListState.error (fetchAllCampaigns (Inr contract) clock st) = None"
    and "ListState.loading (fetchAllCampaigns (Inr contract) clock st) = False"
proof -
  let ?reqs = "map (\<lambda>i. fetchSingleCampaign contract (clock i) i) [0..<n]"
  let ?s = "ListState.console st"
  obtain rs cons where pa: "Promise_all ?reqs ?s = (rs, cons)"
    by (cases "Promise_all ?reqs ?s")
  have rs: "rs = map (\<lambda>i. case fetchSingleCampaign_try contract (clock i) i of
                 Inr v \<Rightarrow> Some v | Inl e \<Rightarrow> None) [0..<n]"
    using Promise_all_fetchSingleCampaign [of contract clock "[0..<n]" ?s] pa by simp
  show "ListState.campaigns (fetchAllCampaigns (Inr contract) clock st) =
           rev (List.map_filter
                  (\<lambda>i. case fetchSingleCampaign_try contract (clock i) i of
                          Inr v \<Rightarrow> Some v | Inl e \<Rightarrow> None) [0..<n])"
    using assms pa rs
    by (simp add: fetchAllCampaigns_def Let_def filter_Boolean_map List.map_filter_simps)
  show "ListState.error (fetchAllCampaigns (Inr contract) clock st) = None"
    using assms pa by (simp add: fetchAllCampaigns_def Let_def)
  show "ListState.loading (fetchAllCampaigns (Inr contract) clock st) = False"
    using assms pa by (simp add: fetchAllCampaigns_def Let_def)
qed

text \<open>
  C10. When the campaign count \<open>n\<close> is read, the list page ends with no error and with the
  views of exactly the campaigns below \<open>n\<close> whose fetch succeeded, in descending order of
  id; a failing fetch yields \<open>null\<close> and is left out; a count of zero gives the empty
  list.
\<close>

theorem fetchAllCampaigns_tolerant:
  assumes "campaignCount contract = Inr n"
  shows "ListState.campaigns (fetchAllCampaigns (Inr contract) clock st) =
           rev (List.map_filter
                  (\<lambda>i. case fetchSingleCampaign_try contract (clock i) i of
                          Inr v \<Rightarrow> Some v | Inl e \<Rightarrow> None) [0..<n]) \<and>
         map CampaignView.id' (ListState.campaigns (fetchAllCampaigns (Inr contract) clock st)) =
           rev (filter (\<lambda>i. \<exists>v. fetchSingleCampaign_try contract (clock i) i = Inr v) [0..<n]) \<and>
         ListState.error (fetchAllCampaigns (Inr contract) clock st) = None \<and>
         ListState.loading (fetchAllCampaigns (Inr contract) clock st) = False \<and>
         (n = 0 \<longrightarrow> ListState.campaigns (fetchAllCampaigns (Inr contract) clock st) = []) \<and>
         (\<forall>i now e cons. fetchSingleCampaign_try contract now i = Inl e \<longrightarrow>
            fst (fetchSingleCampaign contract now i cons) = None)"
proof -
  let ?views = "List.map_filter
                  (\<lambda>i. case fetchSingleCampaign_try contract (clock i) i of
                          Inr v \<Rightarrow> Some v | Inl e \<Rightarrow> None) [0..<n]"
  have "map CampaignView.id' (rev ?views) = rev (map CampaignView.id' ?views)"
    by (simp add: rev_map)
  then have ids: "map CampaignView.id' (rev ?views) =
      rev (filter (\<lambda>i. \<exists>v. fetchSingleCampaign_try contract (clock i) i = Inr v) [0..<n])"
    by (simp only: map_filter_ids)
  show ?thesis
    using fetchAllCampaigns_campaigns [OF assms, of clock st] ids
    by (simp add: fetchSingleCampaign_fst List.map_filter_simps)
qed

theorem fetchAllCampaigns_tolerant_witness:
  "campaignCount three_campaigns = Inr 3 \<and>
   fetchSingleCampaign_try three_campaigns 1000 1 = Inl (Error ''rpc error'') \<and>
   map CampaignView.id'
     (ListState.campaigns (fetchAllCampaigns (Inr three_campaigns) (\<lambda>i. 1000) initial_list))
     = [2, 0] \<and>
   campaignCount no_campaigns = Inr 0 \<and>
   ListState.campaigns (fetchAllCampaigns (Inr no_campaigns) (\<lambda>i. 1000) initial_list) = [] \<and>
   ListState.error (fetchAllCampaigns (Inr no_campaigns) (\<lambda>i. 1000) initial_list) = None"
  using fetchAllCampaigns_tolerant [of three_campaigns 3 "\<lambda>i. 1000" initial_list]
    fetchAllCampaigns_tolerant [of no_campaigns 0 "\<lambda>i. 1000" initial_list]
  by (simp add: three_campaigns_def no_campaigns_def fetchSingleCampaign_try_def fixtures
      Let_def upt_rec)

section \<open>Active views\<close>

lemma js_ge_iff: "a \<noteq> NaN \<Longrightarrow> b \<noteq> NaN \<Longrightarrow> js_ge a b \<longleftrightarrow> \<not> js_lt a b"
  by (simp add: js_ge_def)

lemma Number_ether_not_NaN [simp]: "Number_ether s \<noteq> NaN"
  by (cases s) simp

lemma Number_bigint_not_NaN [simp]: "Number_bigint n \<noteq> NaN"
  by (simp add: Number_bigint_def)

lemma fetchCampaign_try_active:
  assumes "fetchCampaign_try p now i = Inr v"
  shows "(CampaignData.isActive v \<longleftrightarrow> CampaignData.status v = ACTIVE) \<and>
         (CampaignData.isActive v \<longleftrightarrow>
            js_lt (Finite (of_nat now)) (CampaignData.deadline v) \<and>
            js_lt (Number_ether (CampaignData.raised v)) (Number_ether (CampaignData.goal v))) \<and>
         (\<forall>rw gw. CampaignData.raised v = FormatEther rw \<and> CampaignData.goal v = FormatEther gw \<and>
                  CampaignData.isActive v \<longrightarrow> rw < gw)"
proof -
  obtain contract c n where pc: "p = Inr contract" "getCampaign contract i = Inr c"
      "getDonorCount contract i = Inr n"
    using assms by (auto simp add: fetchCampaign_try_def Let_def split: sum.splits)
  define rw where "rw = or_bigint (Campaign.raised c) (or_bigint (Campaign.raisedAmount c) 0)"
  define gw where "gw = Campaign.goal c"
  have v: "CampaignData.raised v = FormatEther rw" "CampaignData.goal v = FormatEther gw"
      "CampaignData.deadline v = Number_bigint (Campaign.deadline c)"
      "CampaignData.isActive v \<longleftrightarrow>
         \<not> js_ge (Finite (of_nat now)) (Number_bigint (Campaign.deadline c)) \<and>
         \<not> js_ge (Number_ether (FormatEther rw)) (Number_ether (FormatEther gw))"
      "CampaignData.status v =
         (if js_ge (Number_ether (FormatEther rw)) (Number_ether (FormatEther gw)) then SUCCESSFUL
          else if js_ge (Finite (of_nat now)) (Number_bigint (Campaign.deadline c)) then ENDED
          else ACTIVE)"
    using assms pc
    by (auto simp add: fetchCampaign_try_def Let_def rw_def gw_def simp del: Number_ether.simps)
  have mono: "gw \<le> rw \<Longrightarrow> js_ge (Number_ether (FormatEther rw)) (Number_ether (FormatEther gw))"
    by (rule Number_ether_mono)
  have lt1: "js_ge (Finite (of_nat now)) (Number_bigint (Campaign.deadline c)) \<longleftrightarrow>
             \<not> js_lt (Finite (of_nat now)) (Number_bigint (Campaign.deadline c))"
    by (rule js_ge_iff) simp_all
  have lt2: "js_ge (Number_ether (FormatEther rw)) (Number_ether (FormatEther gw)) \<longleftrightarrow>
             \<not> js_lt (Number_ether (FormatEther rw)) (Number_ether (FormatEther gw))"
    by (rule js_ge_iff) simp_all
  show ?thesis
    using v mono lt1 lt2 by (auto simp add: not_le simp del: Number_ether.simps)
qed

lemma fetchSingleCampaign_try_active:
  assumes "fetchSingleCampaign_try contract now i = Inr u"
  shows "(CampaignView.isActive u \<longleftrightarrow> CampaignView.status u = ACTIVE) \<and>
         (CampaignView.isActive u \<longleftrightarrow> js_lt (Finite (of_nat now)) (CampaignView.deadline u))"
  using assms
  by (auto simp add: fetchSingleCampaign_try_def Let_def js_ge_iff
      split: sum.splits option.splits if_splits)

text \<open>
  C5, as the code has it. On every path that builds a view, \<open>isActive\<close> holds exactly when
  the status is ACTIVE: for the view of the details page, for the view of
  \<open>fetchSingleCampaign\<close>, and for every view in the list that \<open>fetchAllCampaigns\<close> sets.
  On the details page that is exactly when now is before the deadline and the amount
  raised is below the goal, each compared as the page reads it, as a double; an active
  view there has raised less than its goal in wei as well. On the list page it is exactly
  when now is before the deadline as read: the goal is not consulted there.
\<close>

theorem isActive_iff_ACTIVE:
  "(\<forall>v. fetchCampaign_try p now i = Inr v \<longrightarrow>
      (CampaignData.isActive v \<longleftrightarrow> CampaignData.status v = ACTIVE) \<and>
      (CampaignData.isActive v \<longleftrightarrow>
         js_lt (Finite (of_nat now)) (CampaignData.deadline v) \<and>
         js_lt (Number_ether (CampaignData.raised v)) (Number_ether (CampaignData.goal v))) \<and>
      (\<forall>rw gw. CampaignData.raised v = FormatEther rw \<and> CampaignData.goal v = FormatEther gw \<and>
               CampaignData.isActive v \<longrightarrow> rw < gw)) \<and>
   (\<forall>u. fetchSingleCampaign_try contract now i = Inr u \<longrightarrow>
      (CampaignView.isActive u \<longleftrightarrow> CampaignView.status u = ACTIVE) \<and>
      (CampaignView.isActive u \<longleftrightarrow> js_lt (Finite (of_nat now)) (CampaignView.deadline u))) \<and>
   (campaignCount contract = Inr n \<longrightarrow>
      (\<forall>u \<in> set (ListState.campaigns (fetchAllCampaigns (Inr contract) clock st)).
         CampaignView.isActive u \<longleftrightarrow> CampaignView.status u = ACTIVE))"
proof -
  have list: "\<forall>u \<in> set (ListState.campaigns (fetchAllCampaigns (Inr contract) clock st)).
         CampaignView.isActive u \<longleftrightarrow> CampaignView.status u = ACTIVE"
    if n: "campaignCount contract = Inr n"
  proof
    fix u
    assume "u \<in> set (ListState.campaigns (fetchAllCampaigns (Inr contract) clock st))"
    then obtain j where
      "(case fetchSingleCampaign_try contract (clock j) j of
          Inr v \<Rightarrow> Some v | Inl e \<Rightarrow> None) = Some u"
      using fetchAllCampaigns_campaigns(1) [OF n, of clock st]
      by (auto simp add: set_map_filter)
    then have "fetchSingleCampaign_try contract (clock j) j = Inr u"
      by (simp split: sum.splits)
    then show "CampaignView.isActive u \<longleftrightarrow> CampaignView.status u = ACTIVE"
      using fetchSingleCampaign_try_active by blast
  qed
  have details: "\<forall>v. fetchCampaign_try p now i = Inr v \<longrightarrow>
      (CampaignData.isActive v \<longleftrightarrow> CampaignData.status v = ACTIVE) \<and>
      (CampaignData.isActive v \<longleftrightarrow>
         js_lt (Finite (of_nat now)) (CampaignData.deadline v) \<and>
         js_lt (Number_ether (CampaignData.raised v)) (Number_ether (CampaignData.goal v))) \<and>
      (\<forall>rw gw. CampaignData.raised v = FormatEther rw \<and> CampaignData.goal v = FormatEther gw \<and>
               CampaignData.isActive v \<longrightarrow> rw < gw)"
    using fetchCampaign_try_active [of p now i] by blast
  have single: "\<forall>u. fetchSingleCampaign_try contract now i = Inr u \<longrightarrow>
      (CampaignView.isActive u \<longleftrightarrow> CampaignView.status u = ACTIVE) \<and>
      (CampaignView.isActive u \<longleftrightarrow> js_lt (Finite (of_nat now)) (CampaignView.deadline u))"
    using fetchSingleCampaign_try_active [of contract now i] by blast
  show ?thesis using details single list by blast
qed

theorem isActive_iff_ACTIVE_witness:
  "map_sum message CampaignData.isActive
     (fetchCampaign_try
        (Inr (contract_of (sample_campaign (10 * 10 ^ 18) None (Some (2 * 10 ^ 18)) 2000) (Inr 0)))
        1000 0) = Inr True \<and>
   map_sum message CampaignData.status
     (fetchCampaign_try
        (Inr (contract_of (sample_campaign (10 * 10 ^ 18) None (Some (2 * 10 ^ 18)) 2000) (Inr 0)))
        1000 0) = Inr ACTIVE \<and>
   map_sum message CampaignData.isActive
     (fetchCampaign_try
        (Inr (contract_of (sample_campaign (10 ^ 18 + 1) (Some (10 ^ 18)) None 2000) (Inr 0)))
        1000 0) = Inr False \<and>
   fetchSingleCampaign_try three_campaigns 1000 2
     = Inr \<lparr> CampaignView.id' = 2, CampaignView.title = ''Well'',
             CampaignView.description = ''Dig a well'',
             CampaignView.goal = FormatEther 10, CampaignView.raised = FormatEther 2,
             CampaignView.deadline = Finite 2000, CampaignView.isActive = True,
             CampaignView.status = ACTIVE \<rparr> \<and>
   campaignCount three_campaigns = Inr 3 \<and>
   map CampaignView.isActive
     (ListState.campaigns (fetchAllCampaigns (Inr three_campaigns) (\<lambda>i. 1000 + 600 * i)
        initial_list)) = [False, True] \<and>
   map CampaignView.status
     (ListState.campaigns (fetchAllCampaigns (Inr three_campaigns) (\<lambda>i. 1000 + 600 * i)
        initial_list)) = [ENDED, ACTIVE]"
proof -
  have one: "Number_ether (FormatEther 1000000000000000000) = Finite 1" by simp
  have rounding:
    "map_sum message CampaignData.isActive
       (fetchCampaign_try
          (Inr (contract_of (sample_campaign (10 ^ 18 + 1) (Some (10 ^ 18)) None 2000) (Inr 0)))
          1000 0) = Inr False"
    by (simp add: fetchCampaign_try_def fixtures Let_def js_ge_def one Number_ether_one_plus_wei
        del: Number_ether.simps)
  show ?thesis
    using isActive_iff_ACTIVE
      [of "Inr (contract_of (sample_campaign (10 * 10 ^ 18) None (Some (2 * 10 ^ 18)) 2000) (Inr 0))"
        1000 0 three_campaigns 3 "\<lambda>i. 1000 + 600 * i" initial_list]
      isActive_iff_ACTIVE [of "Inr three_campaigns" 1000 2 three_campaigns 3
        "\<lambda>i. 1000 + 600 * i" initial_list]
      fetchAllCampaigns_campaigns(1) [of three_campaigns 3 "\<lambda>i. 1000 + 600 * i" initial_list]
      rounding
    by (simp add: three_campaigns_def fetchCampaign_try_def fetchSingleCampaign_try_def fixtures
        Let_def upt_rec List.map_filter_simps or_string_def js_ge_def Number_bigint_def)
qed

text \<open>
  C5 as stated fails. On the list page, with 12 ether raised against a goal of 10 and the
  deadline still ahead, the view is active although the campaign is past its goal. On the
  details page, with one ether raised against a goal of one ether and one wei and the
  deadline still ahead, the view is not active although the campaign is past neither.
\<close>

theorem list_view_active_past_goal_counterexample:
  "fetchSingleCampaign_try
     (contract_of (sample_campaign (10 * 10 ^ 18) None (Some (12 * 10 ^ 18)) 2000) (Inr 4)) 1000 0
     = Inr \<lparr> CampaignView.id' = 0, CampaignView.title = ''Well'',
             CampaignView.description = ''Dig a well'',
             CampaignView.goal = FormatEther (10 * 10 ^ 18),
             CampaignView.raised = FormatEther (12 * 10 ^ 18),
             CampaignView.deadline = Finite 2000, CampaignView.isActive = True,
             CampaignView.status = ACTIVE \<rparr> \<and>
   js_ge (Number_ether (FormatEther (12 * 10 ^ 18))) (Number_ether (FormatEther (10 * 10 ^ 18))) \<and>
   (10 * 10 ^ 18 :: nat) \<le> 12 * 10 ^ 18 \<and>
   (10 ^ 18 :: nat) < 10 ^ 18 + 1 \<and> (1000 :: nat) < 2000 \<and>
   map_sum message CampaignData.isActive
     (fetchCampaign_try
        (Inr (contract_of (sample_campaign (10 ^ 18 + 1) (Some (10 ^ 18)) None 2000) (Inr 0)))
        1000 0) = Inr False"
proof -
  have one: "Number_ether (FormatEther 1000000000000000000) = Finite 1" by simp
  have rounding:
    "map_sum message CampaignData.isActive
       (fetchCampaign_try
          (Inr (contract_of (sample_campaign (10 ^ 18 + 1) (Some (10 ^ 18)) None 2000) (Inr 0)))
          1000 0) = Inr False"
    by (simp add: fetchCampaign_try_def fixtures Let_def js_ge_def one Number_ether_one_plus_wei
        del: Number_ether.simps)
  have listed: "fetchSingleCampaign_try
     (contract_of (sample_campaign (10 * 10 ^ 18) None (Some (12 * 10 ^ 18)) 2000) (Inr 4)) 1000 0
     = Inr \<lparr> CampaignView.id' = 0, CampaignView.title = ''Well'',
             CampaignView.description = ''Dig a well'',
             CampaignView.goal = FormatEther (10 * 10 ^ 18),
             CampaignView.raised = FormatEther (12 * 10 ^ 18),
             CampaignView.deadline = Finite 2000, CampaignView.isActive = True,
             CampaignView.status = ACTIVE \<rparr>"
    by (simp add: fetchSingleCampaign_try_def fixtures Let_def js_ge_def Number_bigint_def)
  have ge: "js_ge (Number_ether (FormatEther (12 * 10 ^ 18)))
              (Number_ether (FormatEther (10 * 10 ^ 18)))"
    by (rule Number_ether_mono) simp
  show ?thesis using rounding listed ge by simp
qed

section \<open>Properties of the batch fetch\<close>

lemma byId_fst:
  "fst (fetchMetadataByCampaignId fetch k cons) = fst (fetchMetadataByCampaignId fetch k cons')"
  by (simp add: fetchMetadataByCampaignId_def Let_def split: sum.splits)

lemma byId_callback_fst:
  "fst (fetchMetadataBatch_callback fetch k (m, c)) =
     (case fst (fetchMetadataByCampaignId fetch k []) of Some md \<Rightarrow> m(k \<mapsto> md) | None \<Rightarrow> m)"
proof -
  obtain r c1 where r: "fetchMetadataByCampaignId fetch k c = (r, c1)"
    by (cases "fetchMetadataByCampaignId fetch k c")
  then have "fst (fetchMetadataByCampaignId fetch k []) = r"
    using byId_fst [of fetch k "[]" c] by simp
  then show ?thesis using r
    by (simp add: fetchMetadataBatch_callback_def split: option.splits)
qed

lemma byId_fold:
  "fst (fold (fetchMetadataBatch_callback fetch) ids (m, c)) k =
     (if k \<in> set ids
      then (case fst (fetchMetadataByCampaignId fetch k []) of Some md \<Rightarrow> Some md | None \<Rightarrow> m k)
      else m k)"
proof (induction ids arbitrary: m c)
  case Nil
  show ?case by simp
next
  case (Cons x xs)
  obtain m1 c1 where step: "fetchMetadataBatch_callback fetch x (m, c) = (m1, c1)"
    by (cases "fetchMetadataBatch_callback fetch x (m, c)")
  have m1: "m1 = (case fst (fetchMetadataByCampaignId fetch x []) of
                    Some md \<Rightarrow> m(x \<mapsto> md) | None \<Rightarrow> m)"
    using byId_callback_fst [of fetch x m c] step by simp
  show ?case
    using Cons.IH [of m1 c1] step m1
    by (auto split: option.splits)
qed

lemma byId_batch:
  "fst (fetchMetadataBatch fetch ids cons) k =
     (if k \<in> set ids then fst (fetchMetadataByCampaignId fetch k []) else None)"
  by (simp add: fetchMetadataBatch_def byId_fold split: option.splits)

lemma fromIPFS_fst:
  "fst (fetchMetadataFromIPFS gateway uri cons) = fst (fetchMetadataFromIPFS gateway uri cons')"
  by (simp add: fetchMetadataFromIPFS_def Let_def split: sum.splits)

lemma uris_callback_fst:
  "fst (fetchMetadataBatch_uris_callback gateway (k, uri) (m, c)) =
     (case fst (fetchMetadataFromIPFS gateway uri []) of Inr md \<Rightarrow> m(k \<mapsto> md) | Inl e \<Rightarrow> m)"
proof -
  obtain r c1 where r: "fetchMetadataFromIPFS gateway uri c = (r, c1)"
    by (cases "fetchMetadataFromIPFS gateway uri c")
  then have "fst (fetchMetadataFromIPFS gateway uri []) = r"
    using fromIPFS_fst [of gateway uri "[]" c] by simp
  then show ?thesis using r
    by (simp add: fetchMetadataBatch_uris_callback_def split: sum.splits)
qed

lemma uris_fold:
  assumes "distinct (map fst entries)"
  shows "fst (fold (fetchMetadataBatch_uris_callback gateway) entries (m, c)) k =
     (case map_of entries k of
        None \<Rightarrow> m k
      | Some uri \<Rightarrow>
          (case fst (fetchMetadataFromIPFS gateway uri []) of
             Inr md \<Rightarrow> Some md | Inl e \<Rightarrow> m k))"
  using assms
proof (induction entries arbitrary: m c)
  case Nil
  show ?case by simp
next
  case (Cons x xs)
  obtain k0 u0 where x: "x = (k0, u0)" by (cases x)
  obtain m1 c1 where step: "fetchMetadataBatch_uris_callback gateway (k0, u0) (m, c) = (m1, c1)"
    by (cases "fetchMetadataBatch_uris_callback gateway (k0, u0) (m, c)")
  have m1: "m1 = (case fst (fetchMetadataFromIPFS gateway u0 []) of
                    Inr md \<Rightarrow> m(k0 \<mapsto> md) | Inl e \<Rightarrow> m)"
    using uris_callback_fst [of gateway k0 u0 m c] step by simp
  have d: "distinct (map fst xs)" and fresh: "map_of xs k0 = None"
    using Cons.prems x by (auto simp add: map_of_eq_None_iff)
  show ?case
    using Cons.IH [OF d, of m1 c1] step m1 fresh x
    by (auto split: option.splits sum.splits)
qed

lemma uris_batch:
  assumes "distinct (map fst entries)"
  shows "fst (fetchMetadataBatch_uris gateway entries cons) k =
     (case map_of entries k of
        None \<Rightarrow> None
      | Some uri \<Rightarrow>
          (case fst (fetchMetadataFromIPFS gateway uri []) of
             Inr md \<Rightarrow> Some md | Inl e \<Rightarrow> None))"
  using uris_fold [OF assms, of gateway Map.empty cons k]
  by (simp add: fetchMetadataBatch_uris_def)

text \<open>
  C3. The batch fetch by campaign id returns a mapping that holds, for each key, the
  outcome of that key's own lookup when the key is among the inputs and nothing
  otherwise: its key set is exactly the input ids whose lookup gave a record, a lookup that
  fails or finds nothing leaves no key, and the value at a key depends on the answer for
  that key alone. The same holds for the batch fetch by content address over the entries
  of a map (distinct ids). Both are total: their result is always a mapping.
\<close>

theorem fetchMetadataBatch_keys:
  "(\<forall>k. fst (fetchMetadataBatch fetch ids cons) k =
      (if k \<in> set ids then fst (fetchMetadataByCampaignId fetch k []) else None)) \<and>
   dom (fst (fetchMetadataBatch fetch ids cons)) =
      {k \<in> set ids. \<exists>md. fst (fetchMetadataByCampaignId fetch k []) = Some md} \<and>
   (\<forall>k fetch' cons'. fetch' k = fetch k \<longrightarrow>
      fst (fetchMetadataBatch fetch' ids cons') k = fst (fetchMetadataBatch fetch ids cons) k) \<and>
   (distinct (map fst entries) \<longrightarrow>
      (\<forall>k. fst (fetchMetadataBatch_uris gateway entries cons) k =
         (case map_of entries k of
            None \<Rightarrow> None
          | Some uri \<Rightarrow>
              (case fst (fetchMetadataFromIPFS gateway uri []) of
                 Inr md \<Rightarrow> Some md | Inl e \<Rightarrow> None))) \<and>
      dom (fst (fetchMetadataBatch_uris gateway entries cons)) =
        {k. \<exists>uri md. (k, uri) \<in> set entries \<and>
                      fst (fetchMetadataFromIPFS gateway uri []) = Inr md})"
proof -
  have a: "\<forall>k. fst (fetchMetadataBatch fetch ids cons) k =
      (if k \<in> set ids then fst (fetchMetadataByCampaignId fetch k []) else None)"
    by (simp add: byId_batch)
  have b: "dom (fst (fetchMetadataBatch fetch ids cons)) =
      {k \<in> set ids. \<exists>md. fst (fetchMetadataByCampaignId fetch k []) = Some md}"
    by (auto simp add: dom_def byId_batch split: if_splits)
  have c: "\<forall>k fetch' cons'. fetch' k = fetch k \<longrightarrow>
      fst (fetchMetadataBatch fetch' ids cons') k = fst (fetchMetadataBatch fetch ids cons) k"
    by (simp add: byId_batch fetchMetadataByCampaignId_def)
  have d: "(\<forall>k. fst (fetchMetadataBatch_uris gateway entries cons) k =
         (case map_of entries k of
            None \<Rightarrow> None
          | Some uri \<Rightarrow>
              (case fst (fetchMetadataFromIPFS gateway uri []) of
                 Inr md \<Rightarrow> Some md | Inl e \<Rightarrow> None))) \<and>
      dom (fst (fetchMetadataBatch_uris gateway entries cons)) =
        {k. \<exists>uri md. (k, uri) \<in> set entries \<and>
                      fst (fetchMetadataFromIPFS gateway uri []) = Inr md}"
    if dist: "distinct (map fst entries)"
  proof
    show "\<forall>k. fst (fetchMetadataBatch_uris gateway entries cons) k =
         (case map_of entries k of
            None \<Rightarrow> None
          | Some uri \<Rightarrow>
              (case fst (fetchMetadataFromIPFS gateway uri []) of
                 Inr md \<Rightarrow> Some md | Inl e \<Rightarrow> None))"
      by (simp add: uris_batch [OF dist])
    show "dom (fst (fetchMetadataBatch_uris gateway entries cons)) =
        {k. \<exists>uri md. (k, uri) \<in> set entries \<and>
                      fst (fetchMetadataFromIPFS gateway uri []) = Inr md}"
    proof (rule set_eqI)
      fix k
      show "k \<in> dom (fst (fetchMetadataBatch_uris gateway entries cons)) \<longleftrightarrow>
            k \<in> {k. \<exists>uri md. (k, uri) \<in> set entries \<and>
                      fst (fetchMetadataFromIPFS gateway uri []) = Inr md}"
      proof (cases "map_of entries k")
        case None
        then have "\<And>uri. (k, uri) \<notin> set entries"
          using dist by (auto simp add: map_of_eq_None_iff image_iff)
        then show ?thesis using None by (simp add: dom_def uris_batch [OF dist])
      next
        case (Some uri)
        have only: "(k, uri') \<in> set entries \<longleftrightarrow> uri' = uri" for uri'
        proof -
          have "(k, uri') \<in> set entries \<longleftrightarrow> map_of entries k = Some uri'"
            by (rule map_of_eq_Some_iff [OF dist, symmetric])
          then show ?thesis using Some by auto
        qed
        show ?thesis
          using Some only
          by (cases "fst (fetchMetadataFromIPFS gateway uri [])")
             (simp_all add: dom_def uris_batch [OF dist])
      qed
    qed
  qed
  show ?thesis using a b c d by blast
qed

theorem fetchMetadataBatch_keys_witness:
  "distinct (map fst [(''A'', ''ipfs://QmA''), (''B'', ''ipfs://QmB''), (''C'', ''QmC'')]) \<and>
   fst (fetchMetadataByCampaignId api_ABC ''B'' []) = None \<and>
   dom (fst (fetchMetadataBatch api_ABC [''A'', ''B'', ''C''] [])) = {''A'', ''C''} \<and>
   dom (fst (fetchMetadataBatch_uris gateway_AC
          [(''A'', ''ipfs://QmA''), (''B'', ''ipfs://QmB''), (''C'', ''QmC'')] []))
     = {''A'', ''C''}"
proof -
  let ?ids = "[''A'', ''B'', ''C'']"
  let ?entries = "[(''A'', ''ipfs://QmA''), (''B'', ''ipfs://QmB''), (''C'', ''QmC'')]"
  have dist: "distinct (map fst ?entries)" by simp
  have A: "fst (fetchMetadataByCampaignId api_ABC ''A'' []) = Some (sample_metadata ''A'')"
    by (simp add: api_ABC_def fetchMetadataByCampaignId_def NextResponse_json_def ok_def)
  have B: "fst (fetchMetadataByCampaignId api_ABC ''B'' []) = None"
    by (simp add: api_ABC_def fetchMetadataByCampaignId_def NextResponse_json_def ok_def)
  have C: "fst (fetchMetadataByCampaignId api_ABC ''C'' []) = Some (sample_metadata ''C'')"
    by (simp add: api_ABC_def fetchMetadataByCampaignId_def NextResponse_json_def ok_def)
  have gA: "fst (fetchMetadataFromIPFS gateway_AC ''ipfs://QmA'' []) = Inr (sample_metadata ''QmA'')"
    by (simp add: fetchMetadataFromIPFS_def gateway_AC_def)
  have gB: "fst (fetchMetadataFromIPFS gateway_AC ''ipfs://QmB'' [])
              = Inl (Error ''Failed to fetch metadata from IPFS'')"
    by (simp add: fetchMetadataFromIPFS_def gateway_AC_def)
  have gC: "fst (fetchMetadataFromIPFS gateway_AC ''QmC'' []) = Inr (sample_metadata ''QmC'')"
    by (simp add: fetchMetadataFromIPFS_def gateway_AC_def)
  note keys = fetchMetadataBatch_keys [of api_ABC ?ids "[]" ?entries gateway_AC]
  have "dom (fst (fetchMetadataBatch api_ABC ?ids [])) =
          {k \<in> set ?ids. \<exists>md. fst (fetchMetadataByCampaignId api_ABC k []) = Some md}"
    by (rule keys [THEN conjunct2, THEN conjunct1])
  also have "\<dots> = {''A'', ''C''}"
    using A B C by auto
  finally have byId: "dom (fst (fetchMetadataBatch api_ABC ?ids [])) = {''A'', ''C''}" .
  have "dom (fst (fetchMetadataBatch_uris gateway_AC ?entries [])) =
          {k. \<exists>uri md. (k, uri) \<in> set ?entries \<and>
                        fst (fetchMetadataFromIPFS gateway_AC uri []) = Inr md}"
    by (rule keys [THEN conjunct2, THEN conjunct2, THEN conjunct2, THEN mp, OF dist,
          THEN conjunct2])
  also have "\<dots> = {''A'', ''C''}"
    using gA gB gC by auto
  finally have byUri:
    "dom (fst (fetchMetadataBatch_uris gateway_AC ?entries [])) = {''A'', ''C''}" .
  show ?thesis using dist B byId byUri by (intro conjI)
qed

lemma byId_batch_console:
  "fst (fetchMetadataBatch fetch ids cons) = fst (fetchMetadataBatch fetch ids cons')"
  by (rule ext) (simp add: byId_batch)

lemma uris_fold_console:
  "fst (fold (fetchMetadataBatch_uris_callback gateway) entries (m, c)) =
   fst (fold (fetchMetadataBatch_uris_callback gateway) entries (m, c'))"
proof (induction entries arbitrary: m c c')
  case Nil
  show ?case by simp
next
  case (Cons x xs)
  obtain k0 u0 where x: "x = (k0, u0)" by (cases x)
  obtain m1 c1 where s1: "fetchMetadataBatch_uris_callback gateway (k0, u0) (m, c) = (m1, c1)"
    by (cases "fetchMetadataBatch_uris_callback gateway (k0, u0) (m, c)")
  obtain m2 c2 where s2: "fetchMetadataBatch_uris_callback gateway (k0, u0) (m, c') = (m2, c2)"
    by (cases "fetchMetadataBatch_uris_callback gateway (k0, u0) (m, c')")
  have "m1 = m2"
    using uris_callback_fst [of gateway k0 u0 m c] uris_callback_fst [of gateway k0 u0 m c'] s1 s2
    by simp
  then show ?case using Cons.IH [of m1 c1 c2] s1 s2 x by simp
qed

lemma uris_batch_console:
  "fst (fetchMetadataBatch_uris gateway entries cons) =
   fst (fetchMetadataBatch_uris gateway entries cons')"
  by (simp add: fetchMetadataBatch_uris_def uris_fold_console [of gateway entries Map.empty cons cons'])

text \<open>
  C9. A second call of the batch fetch with the same inputs, started in the state the
  first call left (its console output), returns the same mapping as the first, for the
  fetch by campaign id and for the fetch by content address.
\<close>

theorem fetchMetadataBatch_idempotent:
  "fst (fetchMetadataBatch fetch ids (snd (fetchMetadataBatch fetch ids cons))) =
     fst (fetchMetadataBatch fetch ids cons) \<and>
   fst (fetchMetadataBatch_uris gateway entries
          (snd (fetchMetadataBatch_uris gateway entries cons))) =
     fst (fetchMetadataBatch_uris gateway entries cons)"
  using byId_batch_console [of fetch ids "snd (fetchMetadataBatch fetch ids cons)" cons]
    uris_batch_console [of gateway entries
      "snd (fetchMetadataBatch_uris gateway entries cons)" cons]
  by simp

theorem fetchMetadataBatch_idempotent_witness:
  "snd (fetchMetadataBatch_uris gateway_AC
             [(''A'', ''ipfs://QmA''), (''B'', ''ipfs://QmB'')] []) =
     [''Fetch metadata error: Request failed with status code 404'',
      ''Failed to fetch metadata for campaign B: Failed to fetch metadata from IPFS''] \<and>
   fst (fetchMetadataBatch_uris gateway_AC [(''A'', ''ipfs://QmA''), (''B'', ''ipfs://QmB'')]
          [''Fetch metadata error: Request failed with status code 404'',
           ''Failed to fetch metadata for campaign B: Failed to fetch metadata from IPFS''])
        ''A'' = Some (sample_metadata ''QmA'') \<and>
   fst (fetchMetadataBatch_uris gateway_AC [(''A'', ''ipfs://QmA''), (''B'', ''ipfs://QmB'')] [])
        ''A'' = Some (sample_metadata ''QmA'')"
proof -
  let ?entries = "[(''A'', ''ipfs://QmA''), (''B'', ''ipfs://QmB'')]"
  let ?log = "[''Fetch metadata error: Request failed with status code 404'',
      ''Failed to fetch metadata for campaign B: Failed to fetch metadata from IPFS'']"
  have s: "snd (fetchMetadataBatch_uris gateway_AC ?entries []) = ?log"
    by (simp add: fetchMetadataBatch_uris_def fetchMetadataBatch_uris_callback_def
        fetchMetadataFromIPFS_def gateway_AC_def Let_def)
  have v: "fst (fetchMetadataBatch_uris gateway_AC ?entries []) ''A''
             = Some (sample_metadata ''QmA'')"
    by (simp add: fetchMetadataBatch_uris_def fetchMetadataBatch_uris_callback_def
        fetchMetadataFromIPFS_def gateway_AC_def Let_def)
  have "fst (fetchMetadataBatch_uris gateway_AC ?entries
               (snd (fetchMetadataBatch_uris gateway_AC ?entries []))) =
        fst (fetchMetadataBatch_uris gateway_AC ?entries [])"
    using fetchMetadataBatch_idempotent [of api_ABC "[''A'', ''B'']" "[]" gateway_AC ?entries]
    by (rule conjunct2)
  then have t: "fst (fetchMetadataBatch_uris gateway_AC ?entries ?log) =
        fst (fetchMetadataBatch_uris gateway_AC ?entries [])"
    unfolding s .
  have w: "fst (fetchMetadataBatch_uris gateway_AC ?entries ?log) ''A''
             = Some (sample_metadata ''QmA'')"
    by (simp only: t v)
  show ?thesis using s w v by (intro conjI)
qed

section \<open>Properties of the API routes\<close>




lemma POST_no_credential:
  "falsy_string jwt \<Longrightarrow>
     POST jwt pinata req now tr =
       (NextResponse_json (ErrorBody ''Server configuration error'' None) 500,
        tr @ [Console_error ''PINATA_JWT not configured in environment variables''])"
  by (simp add: POST_def)

lemma POST_missing_field:
  "\<not> falsy_string jwt \<Longrightarrow>
   falsy_string (UploadRequest.campaignId b) \<or> falsy_string (UploadRequest.title b) \<Longrightarrow>
     POST jwt pinata (Inr (JsonValue b)) now tr =
       (NextResponse_json (ErrorBody ''Missing required fields: campaignId, title'' None) 400,
        tr @ [Req_json])"
  by (simp add: POST_def Let_def)

lemma POST_null:
  "\<not> falsy_string jwt \<Longrightarrow>
     \<exists>d m. POST jwt pinata (Inr JsonNull) now tr =
       (NextResponse_json (ErrorBody ''Failed to upload to IPFS'' (Some d)) 500,
        tr @ [Req_json, Console_error (''Pinata upload error: '' @ m)])"
  by (auto simp add: POST_def POST_catch_def Let_def)

lemma POST_unparsable:
  "\<not> falsy_string jwt \<Longrightarrow>
     POST jwt pinata (Inl e) now tr =
       (NextResponse_json (ErrorBody ''Failed to upload to IPFS'' (Some (error_details e))) 500,
        tr @ [Req_json, Console_error (''Pinata upload error: '' @ message e)])"
  by (simp add: POST_def POST_catch_def Let_def)

lemma POST_valid:
  "\<not> falsy_string jwt \<Longrightarrow>
   \<not> falsy_string (UploadRequest.campaignId b) \<Longrightarrow> \<not> falsy_string (UploadRequest.title b) \<Longrightarrow>
     snd (POST jwt pinata (Inr (JsonValue b)) now tr) =
       (case pinJSONToIPFS pinata b now of
          Inl e \<Rightarrow> tr @ [Req_json, Post_pinJSONToIPFS b now,
                         Console_error (''Pinata upload error: '' @ message e)]
        | Inr r \<Rightarrow> tr @ [Req_json, Post_pinJSONToIPFS b now])"
  by (simp add: POST_def POST_catch_def Let_def split: sum.splits)

lemma POST_write_iff:
  "(\<exists>b' t. Post_pinJSONToIPFS b' t \<in> set (snd (POST jwt pinata req now []))) \<longleftrightarrow>
     \<not> falsy_string jwt \<and>
     (\<exists>b. req = Inr (JsonValue b) \<and> \<not> falsy_string (UploadRequest.campaignId b) \<and>
          \<not> falsy_string (UploadRequest.title b))"
proof (cases "falsy_string jwt")
  case True
  then show ?thesis by (simp add: POST_no_credential)
next
  case False
  show ?thesis
  proof (cases req)
    case (Inl e)
    then show ?thesis using False by (simp add: POST_unparsable)
  next
    case (Inr j)
    show ?thesis
    proof (cases j)
      case JsonNull
      then show ?thesis using False Inr by (simp add: POST_def POST_catch_def Let_def)
    next
      case (JsonValue b)
      show ?thesis
      proof (cases "falsy_string (UploadRequest.campaignId b) \<or> falsy_string (UploadRequest.title b)")
        case True
        then show ?thesis
          using False Inr JsonValue POST_missing_field [of jwt b pinata now "[]"] by auto
      next
        case valid: False
        then have "Post_pinJSONToIPFS b now \<in> set (snd (POST jwt pinata (Inr (JsonValue b)) now []))"
          using False POST_valid [of jwt b pinata now "[]"] by (simp split: sum.splits)
        then show ?thesis using False Inr JsonValue valid by auto
      qed
    qed
  qed
qed

text \<open>
  The guards of the upload route, which C7 is about, as the code has them. Without a
  credential (unset or empty), the route answers 500 "Server configuration error" and does
  nothing but log: the body is not parsed and no write is issued. With a credential and a
  body that parses to a JSON value other than \<open>null\<close> whose \<open>campaignId\<close> or \<open>title\<close> is
  missing or empty, it answers 400 after parsing the body and issues no write. A body that
  is the JSON value \<open>null\<close> is answered 500 "Failed to upload to IPFS", also with no write.
  A write is issued exactly when the credential is configured and the body parses to a
  value with both fields.
\<close>

theorem POST_guards:
  "(falsy_string jwt \<longrightarrow>
      POST jwt pinata req now tr =
        (NextResponse_json (ErrorBody ''Server configuration error'' None) 500,
         tr @ [Console_error ''PINATA_JWT not configured in environment variables''])) \<and>
   (\<not> falsy_string jwt \<and>
    (falsy_string (UploadRequest.campaignId b) \<or> falsy_string (UploadRequest.title b)) \<longrightarrow>
      POST jwt pinata (Inr (JsonValue b)) now tr =
        (NextResponse_json (ErrorBody ''Missing required fields: campaignId, title'' None) 400,
         tr @ [Req_json])) \<and>
   (\<not> falsy_string jwt \<longrightarrow>
      (\<exists>d m. POST jwt pinata (Inr JsonNull) now tr =
         (NextResponse_json (ErrorBody ''Failed to upload to IPFS'' (Some d)) 500,
          tr @ [Req_json, Console_error (''Pinata upload error: '' @ m)]))) \<and>
   (falsy_string jwt \<or>
    (falsy_string (UploadRequest.campaignId b) \<or> falsy_string (UploadRequest.title b)) \<longrightarrow>
      (\<forall>b' t. Post_pinJSONToIPFS b' t \<notin> set (snd (POST jwt pinata (Inr (JsonValue b)) now [])))) \<and>
   ((\<exists>b' t. Post_pinJSONToIPFS b' t \<in> set (snd (POST jwt pinata req now []))) \<longleftrightarrow>
      \<not> falsy_string jwt \<and>
      (\<exists>v. req = Inr (JsonValue v) \<and> \<not> falsy_string (UploadRequest.campaignId v) \<and>
           \<not> falsy_string (UploadRequest.title v))) \<and>
   (\<not> falsy_string jwt \<and>
    \<not> falsy_string (UploadRequest.campaignId b) \<and> \<not> falsy_string (UploadRequest.title b) \<longrightarrow>
      Post_pinJSONToIPFS b now \<in> set (snd (POST jwt pinata (Inr (JsonValue b)) now [])))"
proof -
  have w: "Post_pinJSONToIPFS b now \<in> set (snd (POST jwt pinata (Inr (JsonValue b)) now []))"
    if "\<not> falsy_string jwt" "\<not> falsy_string (UploadRequest.campaignId b)"
       "\<not> falsy_string (UploadRequest.title b)"
    using POST_valid [OF that, of pinata now "[]"] by (simp split: sum.splits)
  have n: "\<forall>b' t. Post_pinJSONToIPFS b' t \<notin> set (snd (POST jwt pinata (Inr (JsonValue b)) now []))"
    if "falsy_string jwt \<or>
        (falsy_string (UploadRequest.campaignId b) \<or> falsy_string (UploadRequest.title b))"
  proof (cases "falsy_string jwt")
    case True
    then show ?thesis by (simp add: POST_no_credential)
  next
    case False
    then show ?thesis using that by (simp add: POST_missing_field)
  qed
  show ?thesis
    using w n POST_no_credential [of jwt pinata req now tr]
      POST_missing_field [of jwt b pinata now tr] POST_null [of jwt pinata now tr]
      POST_write_iff [of jwt pinata req now]
    by (intro conjI impI) blast+
qed

theorem POST_guards_witness:
  "falsy_string None \<and>
   POST None (pinata_of (Inl (Error ''unused'')))
       (Inr (JsonValue (sample_upload (Some ''7'') (Some ''Well'')))) 99 []
     = (\<lparr> Response.status = 500, Response.body = ErrorBody ''Server configuration error'' None \<rparr>,
        [Console_error ''PINATA_JWT not configured in environment variables'']) \<and>
   \<not> falsy_string (Some ''jwt'') \<and>
   falsy_string (UploadRequest.title (sample_upload (Some ''7'') None)) \<and>
   POST (Some ''jwt'') (pinata_of (Inl (Error ''unused'')))
       (Inr (JsonValue (sample_upload (Some ''7'') None))) 99 []
     = (\<lparr> Response.status = 400,
          Response.body = ErrorBody ''Missing required fields: campaignId, title'' None \<rparr>,
        [Req_json]) \<and>
   Response.status (fst (POST (Some ''jwt'') (pinata_of (Inl (Error ''unused''))) (Inr JsonNull) 99 []))
     = 500 \<and>
   snd (POST (Some ''jwt'') (pinata_of (Inl (Error ''unused'')))
          (Inr (JsonValue (sample_upload (Some ''7'') (Some ''Well'')))) 99 [])
     = [Req_json, Post_pinJSONToIPFS (sample_upload (Some ''7'') (Some ''Well'')) 99]"
  using POST_guards [of None "pinata_of (Inl (Error ''unused''))"
      "Inr (JsonValue (sample_upload (Some ''7'') (Some ''Well'')))" 99 "[]"
      "sample_upload (Some ''7'') (Some ''Well'')"]
    POST_guards [of "Some ''jwt''" "pinata_of (Inl (Error ''unused''))"
      "Inr (JsonValue (sample_upload (Some ''7'') None))" 99 "[]" "sample_upload (Some ''7'') None"]
  by (simp add: falsy_string_def sample_upload_def NextResponse_json_def POST_def POST_catch_def
      pinata_of_def Let_def)

text \<open>
  C7 fails at the body \<open>null\<close>, with the credential configured: the payload has no
  \<open>campaignId\<close> and no \<open>title\<close>, and the answer is the server error of a failed upload,
  status 500 and not 400: the read of \<open>body.campaignId\<close> throws into the handler meant for
  the upload. No write is issued. A body with the same two fields missing that is an
  object is answered 400.
\<close>

theorem POST_null_body:
  "\<not> falsy_string (Some ''jwt'') \<and>
   Response.status
     (fst (POST (Some ''jwt'') (pinata_of (Inl (Error ''unused''))) (Inr JsonNull) 99 [])) = 500 \<and>
   Response.body
     (fst (POST (Some ''jwt'') (pinata_of (Inl (Error ''unused''))) (Inr JsonNull) 99 []))
     = ErrorBody ''Failed to upload to IPFS'' (Some ''Cannot read properties of null'') \<and>
   snd (POST (Some ''jwt'') (pinata_of (Inl (Error ''unused''))) (Inr JsonNull) 99 [])
     = [Req_json, Console_error ''Pinata upload error: Cannot read properties of null''] \<and>
   POST (Some ''jwt'') (pinata_of (Inl (Error ''unused'')))
       (Inr (JsonValue (sample_upload None None))) 99 []
     = (\<lparr> Response.status = 400,
          Response.body = ErrorBody ''Missing required fields: campaignId, title'' None \<rparr>,
        [Req_json])"
  by (simp add: POST_def POST_catch_def falsy_string_def NextResponse_json_def Let_def
      error_details_def sample_upload_def)

end
